theory Spec2Isabelle
  imports Complex_Main "HOL-Library.Multiset" "HOL-Library.Sublist"
begin

section \<open>JavaScript values\<close>

text \<open>
  The program (\<^verbatim>\<open>static/js/app.js\<close>, class \<^verbatim>\<open>MailApp\<close>) works on values parsed from
  JSON and reads them with property access, \<^verbatim>\<open>||\<close> and \<^verbatim>\<open>if (v)\<close>. A value is one of the
  JSON shapes, or \<^verbatim>\<open>undefined\<close> (what reading a missing property gives). A number is the
  value of the parsed double; JSON has no NaN. An object is its list of own properties, a
  key looked up from the front.
\<close>

datatype jsval =
    JUndefined
  | JNull
  | JBool bool
  | JNum real
  | JStr string
  | JArr "jsval list"
  | JObj "(string \<times> jsval) list"

text \<open>\<^verbatim>\<open>ToBoolean\<close>: what \<^verbatim>\<open>if (v)\<close>, \<^verbatim>\<open>!v\<close>, \<^verbatim>\<open>v || w\<close> and \<^verbatim>\<open>filter(i => v)\<close> test.\<close>

fun truthy :: "jsval \<Rightarrow> bool" where
  "truthy JUndefined = False"
| "truthy JNull = False"
| "truthy (JBool b) = b"
| "truthy (JNum n) = (n \<noteq> 0)"
| "truthy (JStr s) = (s \<noteq> [])"
| "truthy (JArr xs) = True"
| "truthy (JObj kvs) = True"

text \<open>\<^verbatim>\<open>a || b\<close>: the left operand when it is truthy, the right operand otherwise.\<close>

definition jsOr :: "jsval \<Rightarrow> jsval \<Rightarrow> jsval" where
  "jsOr a b = (if truthy a then a else b)"

text \<open>
  \<^verbatim>\<open>v.k\<close> for a value that is neither \<^verbatim>\<open>null\<close> nor \<^verbatim>\<open>undefined\<close>, at the property names
  the program reads (\<^verbatim>\<open>id\<close>, \<^verbatim>\<open>from\<close>, \<^verbatim>\<open>subject\<close>, \<^verbatim>\<open>location\<close>, \<^verbatim>\<open>lat\<close>, ...): none of
  them is a built-in property of an array, a string, a number or a boolean, so only an
  object can answer with something other than \<^verbatim>\<open>undefined\<close>. Reading a property of
  \<^verbatim>\<open>null\<close> or \<^verbatim>\<open>undefined\<close> throws a TypeError; every caller below tests \<open>nullish\<close>
  before its first read.
\<close>

fun get :: "jsval \<Rightarrow> string \<Rightarrow> jsval" where
  "get (JObj kvs) k = (case map_of kvs k of Some v \<Rightarrow> v | None \<Rightarrow> JUndefined)"
| "get v k = JUndefined"

definition nullish :: "jsval \<Rightarrow> bool" where
  "nullish v = (v = JUndefined \<or> v = JNull)"

definition isArray :: "jsval \<Rightarrow> bool" where
  "isArray v = (case v of JArr xs \<Rightarrow> True | _ \<Rightarrow> False)"

definition elements :: "jsval \<Rightarrow> jsval list" where
  "elements v = (case v of JArr xs \<Rightarrow> xs | _ \<Rightarrow> [])"

datatype js_error =
    TypeError
  | NetworkError
  | SyntaxError
  | FetchFailed

section \<open>Normalized items and the ambient sources\<close>

text \<open>The object literal built by the three \<^verbatim>\<open>normalize...Data\<close> methods.\<close>

record item =
  id_f :: jsval
  type_f :: string
  from_f :: jsval
  subject :: jsval
  preview :: jsval
  date :: jsval
  unread :: jsval
  originalData :: jsval

text \<open>
  \<^verbatim>\<open>Math.random().toString(36)\<close> and \<^verbatim>\<open>new Date().toISOString()\<close> read state outside the
  program. \<open>randomToken a n\<close> is what the \<open>n\<close>-th call of the first returns, \<open>nowISO a n\<close>
  what the \<open>n\<close>-th call of the second returns; the counters say how many calls were made.
\<close>

record ambient =
  randomToken :: "nat \<Rightarrow> string"
  randomCalls :: nat
  nowISO :: "nat \<Rightarrow> string"
  clockReads :: nat

text \<open>\<^verbatim>\<open>item.id || Math.random().toString(36)\<close>: the random source is read only when the id is falsy.\<close>

definition idOrRandom :: "ambient \<Rightarrow> jsval \<Rightarrow> jsval \<times> ambient" where
  "idOrRandom a v =
     (if truthy v then (v, a)
      else (JStr (randomToken a (randomCalls a)), a\<lparr>randomCalls := Suc (randomCalls a)\<rparr>))"

text \<open>\<^verbatim>\<open>item.date || item.<alt> || new Date().toISOString()\<close>.\<close>

definition dateOrNow :: "ambient \<Rightarrow> jsval \<Rightarrow> jsval \<Rightarrow> jsval \<times> ambient" where
  "dateOrNow a d alt =
     (if truthy (jsOr d alt) then (jsOr d alt, a)
      else (JStr (nowISO a (clockReads a)), a\<lparr>clockReads := Suc (clockReads a)\<rparr>))"

text \<open>\<^verbatim>\<open>item.unread !== undefined ? item.unread : true\<close>.\<close>

definition unreadOrTrue :: "jsval \<Rightarrow> jsval" where
  "unreadOrTrue v = (if v \<noteq> JUndefined then v else JBool True)"

text \<open>The arrow functions passed to \<^verbatim>\<open>items.map\<close>, one per source.\<close>

definition normalizeMailItem :: "ambient \<Rightarrow> jsval \<Rightarrow> (js_error + item) \<times> ambient" where
  "normalizeMailItem a it =
     (if nullish it then (Inl TypeError, a)
      else
        let (i, a1) = idOrRandom a (get it ''id'');
            (d, a2) = dateOrNow a1 (get it ''date'') (get it ''created_at'')
        in (Inr \<lparr> id_f = i,
                   type_f = ''mail'',
                   from_f = jsOr (get it ''from'') (jsOr (get it ''sender'') (JStr ''Unknown'')),
                   subject = jsOr (get it ''subject'') (JStr ''No Subject''),
                   preview = jsOr (get it ''preview'') (jsOr (get it ''body'') (JStr '''')),
                   date = d,
                   unread = unreadOrTrue (get it ''unread''),
                   originalData = it \<rparr>, a2))"

definition normalizeLetterItem :: "ambient \<Rightarrow> jsval \<Rightarrow> (js_error + item) \<times> ambient" where
  "normalizeLetterItem a it =
     (if nullish it then (Inl TypeError, a)
      else
        let (i, a1) = idOrRandom a (get it ''id'');
            (d, a2) = dateOrNow a1 (get it ''date'') (get it ''received_at'')
        in (Inr \<lparr> id_f = i,
                   type_f = ''letter'',
                   from_f = jsOr (get it ''from'') (jsOr (get it ''sender'') (JStr ''Unknown'')),
                   subject = jsOr (get it ''subject'') (jsOr (get it ''title'') (JStr ''Letter'')),
                   preview = jsOr (get it ''preview'') (jsOr (get it ''description'') (JStr '''')),
                   date = d,
                   unread = unreadOrTrue (get it ''unread''),
                   originalData = it \<rparr>, a2))"

definition normalizePackageItem :: "ambient \<Rightarrow> jsval \<Rightarrow> (js_error + item) \<times> ambient" where
  "normalizePackageItem a it =
     (if nullish it then (Inl TypeError, a)
      else
        let (i, a1) = idOrRandom a (get it ''id'');
            (d, a2) = dateOrNow a1 (get it ''date'') (get it ''received_at'')
        in (Inr \<lparr> id_f = i,
                   type_f = ''package'',
                   from_f = jsOr (get it ''from'')
                             (jsOr (get it ''sender'') (jsOr (get it ''carrier'') (JStr ''Unknown''))),
                   subject = jsOr (get it ''subject'')
                               (jsOr (get it ''tracking_number'') (JStr ''Package'')),
                   preview = jsOr (get it ''preview'')
                               (jsOr (get it ''description'') (jsOr (get it ''status'') (JStr ''''))),
                   date = d,
                   unread = unreadOrTrue (get it ''unread''),
                   originalData = it \<rparr>, a2))"

text \<open>
  \<^verbatim>\<open>items.map(f)\<close>: the elements in order, the ambient state handed on; an exception in
  \<open>f\<close> ends the map.
\<close>

fun mapItems :: "(ambient \<Rightarrow> jsval \<Rightarrow> (js_error + item) \<times> ambient) \<Rightarrow> ambient \<Rightarrow> jsval list
                  \<Rightarrow> (js_error + item list) \<times> ambient" where
  "mapItems f a [] = (Inr [], a)"
| "mapItems f a (x # xs) =
     (case f a x of
        (Inl e, a1) \<Rightarrow> (Inl e, a1)
      | (Inr y, a1) \<Rightarrow>
          (case mapItems f a1 xs of
             (Inl e, a2) \<Rightarrow> (Inl e, a2)
           | (Inr ys, a2) \<Rightarrow> (Inr (y # ys), a2)))"

text \<open>\<^verbatim>\<open>data.<key> || data.data || data\<close>, the local \<^verbatim>\<open>items\<close> of the three methods.\<close>

definition unwrapItems :: "string \<Rightarrow> jsval \<Rightarrow> jsval" where
  "unwrapItems key data = jsOr (get data key) (jsOr (get data ''data'') data)"

definition normalizeMailData :: "ambient \<Rightarrow> jsval \<Rightarrow> (js_error + item list) \<times> ambient" where
  "normalizeMailData a data =
     (if \<not> truthy data then (Inr [], a)
      else let items = unwrapItems ''mail'' data
           in if \<not> isArray items then (Inr [], a)
              else mapItems normalizeMailItem a (elements items))"

definition normalizeLettersData :: "ambient \<Rightarrow> jsval \<Rightarrow> (js_error + item list) \<times> ambient" where
  "normalizeLettersData a data =
     (if \<not> truthy data then (Inr [], a)
      else let items = unwrapItems ''letters'' data
           in if \<not> isArray items then (Inr [], a)
              else mapItems normalizeLetterItem a (elements items))"

definition normalizePackagesData :: "ambient \<Rightarrow> jsval \<Rightarrow> (js_error + item list) \<times> ambient" where
  "normalizePackagesData a data =
     (if \<not> truthy data then (Inr [], a)
      else let items = unwrapItems ''packages'' data
           in if \<not> isArray items then (Inr [], a)
              else mapItems normalizePackageItem a (elements items))"

section \<open>The application state\<close>

text \<open>
  The fields of the \<^verbatim>\<open>MailApp\<close> object and the parts of the page it writes. The four
  arrays \<^verbatim>\<open>mailData.mail\<close>, \<^verbatim>\<open>mailData.letters\<close>, \<^verbatim>\<open>mailData.packages\<close> and
  \<^verbatim>\<open>allMailItems\<close> are four distinct array objects (\<^verbatim>\<open>map\<close>, \<^verbatim>\<open>[]\<close> and the spread
  literal each build a new one), so each is a field holding its elements; a method that
  writes through an alias of one of them updates that field.

  A \<^verbatim>\<open>.mail-item\<close> element of the page is a \<open>row\<close>: its \<^verbatim>\<open>textContent\<close> and its
  \<^verbatim>\<open>style.display\<close>. The content of \<^verbatim>\<open>#mailList\<close> is the page's own markup before the
  first write, the loading spinner, the error box, the empty-state box or a list of rows.
  The elements the program looks up by id or by selector (the list, the statistics cards,
  the category entries, the buttons) are taken to exist in the page, so that the writes
  of \<^verbatim>\<open>updateStats\<close>, \<^verbatim>\<open>showLoading\<close>, \<^verbatim>\<open>showError\<close> and \<^verbatim>\<open>filterMail\<close> to them do not
  throw.
\<close>

record row =
  textContent :: string
  display :: string

datatype list_content =
    PageMarkup
  | LoadingState
  | ErrorState string
  | EmptyState
  | Rows "row list"

record stats =
  totalMail :: nat
  totalLetters :: nat
  totalPackages :: nat
  totalAll :: nat
  countAll :: nat
  countMail :: nat
  countLetters :: nat
  countPackages :: nat
  countUnread :: nat

record MailApp =
  currentFilter :: string
  apiKey :: string
  mail :: "item list"
  letters :: "item list"
  packages :: "item list"
  allMailItems :: "item list"
  mailList :: list_content
  statsCards :: "stats option"
  activeCategory :: "string option"
  searchBox :: string
  refreshLoading :: bool

text \<open>The constructor, with no key in local storage and an empty search box.\<close>

definition newMailApp :: MailApp where
  "newMailApp = \<lparr> currentFilter = ''all'', apiKey = [],
                   mail = [], letters = [], packages = [], allMailItems = [],
                   mailList = PageMarkup, statsCards = None, activeCategory = None,
                   searchBox = [], refreshLoading = False \<rparr>"

subsection \<open>What the browser does\<close>

text \<open>
  The program hands four pieces of work to the browser; each is a field of \<open>browser\<close>,
  and every method below takes the browser it runs in.
  \<^item> \<open>dateValue v\<close> is \<^verbatim>\<open>new Date(v)\<close>: a TypeError when \<open>v\<close> is an object that has no
    primitive value (its \<^verbatim>\<open>toString\<close> is not a function), else the time value in
    milliseconds, \<open>None\<close> for an Invalid Date (whose time value is NaN).
  \<^item> \<open>arraySort c xs\<close> is \<^verbatim>\<open>xs.sort(c)\<close>: the elements the array holds after the call,
    and the exception if the call threw.
  \<^item> \<open>renderList xs\<close> is the evaluation of
    \<^verbatim>\<open>xs.map(item => this.createMailItemHTML(item)).join('')\<close> and its assignment to
    \<^verbatim>\<open>innerHTML\<close>: an exception (\<^verbatim>\<open>formatDate\<close> builds a date, the template and
    \<^verbatim>\<open>escapeHtml\<close> turn field values into strings), else the \<^verbatim>\<open>.mail-item\<close> elements
    the markup parses to. The id is written into the markup unescaped, so the elements
    need not be one per item, nor all shown.
  \<^item> \<open>lowerCase t\<close> is \<^verbatim>\<open>t.toLowerCase()\<close>.
\<close>

type_synonym comparator = "item \<Rightarrow> item \<Rightarrow> js_error + int"
type_synonym array_sort = "comparator \<Rightarrow> item list \<Rightarrow> item list \<times> js_error option"

record browser =
  dateValue :: "jsval \<Rightarrow> js_error + int option"
  arraySort :: array_sort
  renderList :: "item list \<Rightarrow> js_error + row list"
  lowerCase :: "string \<Rightarrow> string"

text \<open>
  Two simpler services are parameters of the one method that uses them: \<open>newDate v\<close>, of
  type \<open>date_parser\<close>, is the time value of \<^verbatim>\<open>new Date(v)\<close> for a value the constructor
  accepts, \<open>None\<close> for an Invalid Date; \<open>liText i\<close>, of type \<open>renderer\<close>, is the text of the
  element an item is shown in.
\<close>

type_synonym date_parser = "jsval \<Rightarrow> int option"
type_synonym renderer = "item \<Rightarrow> string"

subsection \<open>Sorting\<close>

text \<open>
  The comparator \<^verbatim>\<open>(a, b) => new Date(b.date) - new Date(a.date)\<close>: the date of \<open>b\<close> is
  built first, an exception of either construction is the comparator's, and a NaN result
  counts as \<open>0\<close> in \<^verbatim>\<open>Array.prototype.sort\<close>. The result is the exact difference of
  the two time values; the program computes it in floating point, where it can be
  rounded, with the same sign, and the sort reads only the sign.
\<close>

definition compareDates :: "browser \<Rightarrow> item \<Rightarrow> item \<Rightarrow> js_error + int" where
  "compareDates br a b =
     (case dateValue br (date b) of
        Inl e \<Rightarrow> Inl e
      | Inr tb \<Rightarrow>
          (case dateValue br (date a) of
             Inl e \<Rightarrow> Inl e
           | Inr ta \<Rightarrow>
               Inr (case (tb, ta) of (Some x, Some y) \<Rightarrow> x - y | _ \<Rightarrow> 0)))"

text \<open>
  What the language says of \<^verbatim>\<open>Array.prototype.sort\<close>, and all that is used of it here.
  A call that returns has only moved the elements. The call returns when the comparator
  does not throw on the elements. When the comparator is the difference of a key, it is
  consistent, and the result is the stable sort by descending key. With an inconsistent
  comparator (an Invalid Date among valid ones) the order is the engine's own.
\<close>

definition engineSort :: "array_sort \<Rightarrow> bool" where
  "engineSort srt =
     (\<forall>c xs.
        (snd (srt c xs) = None \<longrightarrow> mset (fst (srt c xs)) = mset xs)
      \<and> ((\<forall>a \<in> set xs. \<forall>b \<in> set xs. \<exists>k. c a b = Inr k) \<longrightarrow> snd (srt c xs) = None)
      \<and> (\<forall>key. (\<forall>a \<in> set xs. \<forall>b \<in> set xs. c a b = Inr (key b - key a))
             \<longrightarrow> srt c xs = (sort_key (\<lambda>i. - key i) xs, None)))"

subsection \<open>Statistics and display\<close>

definition updateStats :: "MailApp \<Rightarrow> MailApp" where
  "updateStats s =
     (let totalMail = length (mail s);
          totalLetters = length (letters s);
          totalPackages = length (packages s);
          total = totalMail + totalLetters + totalPackages;
          unreadCount = length (filter (\<lambda>i. truthy (unread i)) (allMailItems s))
      in s\<lparr>statsCards := Some \<lparr> totalMail = totalMail, totalLetters = totalLetters,
                                  totalPackages = totalPackages, totalAll = total,
                                  countAll = total, countMail = totalMail,
                                  countLetters = totalLetters, countPackages = totalPackages,
                                  countUnread = unreadCount \<rparr>\<rparr>)"

text \<open>
  The array objects a local variable of \<^verbatim>\<open>displayMail\<close> can point to: one of the four
  stored arrays, or the new array \<^verbatim>\<open>filter\<close> returns.
\<close>

datatype aref = MailArr | LettersArr | PackagesArr | AllMailItemsArr | FilterResult

definition selectArray :: "MailApp \<Rightarrow> aref" where
  "selectArray s =
     (if currentFilter s = ''mail'' then MailArr
      else if currentFilter s = ''letters'' then LettersArr
      else if currentFilter s = ''packages'' then PackagesArr
      else if currentFilter s = ''unread'' then FilterResult
      else AllMailItemsArr)"

definition deref :: "MailApp \<Rightarrow> aref \<Rightarrow> item list" where
  "deref s r =
     (case r of
        MailArr \<Rightarrow> mail s
      | LettersArr \<Rightarrow> letters s
      | PackagesArr \<Rightarrow> packages s
      | AllMailItemsArr \<Rightarrow> allMailItems s
      | FilterResult \<Rightarrow> filter (\<lambda>i. truthy (unread i)) (allMailItems s))"

text \<open>Writing the elements of the array a reference points to; the filter result is not stored.\<close>

definition assign :: "aref \<Rightarrow> item list \<Rightarrow> MailApp \<Rightarrow> MailApp" where
  "assign r xs s =
     (case r of
        MailArr \<Rightarrow> s\<lparr>mail := xs\<rparr>
      | LettersArr \<Rightarrow> s\<lparr>letters := xs\<rparr>
      | PackagesArr \<Rightarrow> s\<lparr>packages := xs\<rparr>
      | AllMailItemsArr \<Rightarrow> s\<lparr>allMailItems := xs\<rparr>
      | FilterResult \<Rightarrow> s)"

text \<open>
  \<^verbatim>\<open>displayMail\<close>, with the state it leaves and the exception it throws, if any.
  \<^verbatim>\<open>allItems\<close> is set to one of the arrays by the \<^verbatim>\<open>switch\<close>; \<^verbatim>\<open>allItems.sort(...)\<close>
  sorts that array in place; then the list element gets the empty-state box, or the rows
  of the rendered array. An exception of the sort leaves the list element as it was, with
  the array as the sort left it; an exception of the rendering leaves the list element as
  it was, with the array sorted.
\<close>

definition displayMail :: "browser \<Rightarrow> MailApp \<Rightarrow> MailApp \<times> js_error option" where
  "displayMail br s =
     (let allItems = selectArray s;
          (sorted, thrown) = arraySort br (compareDates br) (deref s allItems);
          s1 = assign allItems sorted s
      in case thrown of
           Some e \<Rightarrow> (s1, Some e)
         | None \<Rightarrow>
             if length sorted = 0 then (s1\<lparr>mailList := EmptyState\<rparr>, None)
             else (case renderList br sorted of
                     Inl e \<Rightarrow> (s1, Some e)
                   | Inr rows \<Rightarrow> (s1\<lparr>mailList := Rows rows\<rparr>, None)))"

subsection \<open>Filter and search\<close>

text \<open>
  \<^verbatim>\<open>filterMail\<close>; the category is that of an entry of the page, which becomes the active
  one.
\<close>

definition filterMail :: "browser \<Rightarrow> string \<Rightarrow> MailApp \<Rightarrow> MailApp \<times> js_error option" where
  "filterMail br category s =
     displayMail br (s\<lparr>currentFilter := category, activeCategory := Some category\<rparr>)"

text \<open>\<^verbatim>\<open>text.includes(q)\<close>.\<close>

fun includes_str :: "string \<Rightarrow> string \<Rightarrow> bool" where
  "includes_str [] q = (q = [])"
| "includes_str (c # t) q = (prefix q (c # t) \<or> includes_str t q)"

text \<open>
  \<^verbatim>\<open>searchMail\<close>: every \<^verbatim>\<open>.mail-item\<close> element of the page (the rows of the list, if it
  shows rows) gets its \<^verbatim>\<open>style.display\<close> set; nothing else is written.
\<close>

definition searchRow :: "browser \<Rightarrow> string \<Rightarrow> row \<Rightarrow> row" where
  "searchRow br searchLower r =
     r\<lparr>display := (if includes_str (lowerCase br (textContent r)) searchLower then []
                    else ''none'')\<rparr>"

definition searchMail :: "browser \<Rightarrow> string \<Rightarrow> MailApp \<Rightarrow> MailApp" where
  "searchMail br query s =
     (let searchLower = lowerCase br query
      in case mailList s of
           Rows rs \<Rightarrow> s\<lparr>mailList := Rows (map (searchRow br searchLower) rs)\<rparr>
         | _ \<Rightarrow> s)"

text \<open>
  The two listeners of \<^verbatim>\<open>setupEventListeners\<close> that change the view: typing in the search
  box (the browser has put the text into the box when the listener runs) and clicking a
  category. An exception that leaves a listener is reported on the console and the page
  stays as the listener left it.
\<close>

definition onSearchInput :: "browser \<Rightarrow> string \<Rightarrow> MailApp \<Rightarrow> MailApp" where
  "onSearchInput br v s = searchMail br v (s\<lparr>searchBox := v\<rparr>)"

definition onCategoryClick :: "browser \<Rightarrow> string \<Rightarrow> MailApp \<Rightarrow> MailApp" where
  "onCategoryClick br category s = fst (filterMail br category s)"

text \<open>What the user sees of the list: the rows that are not hidden.\<close>

definition visibleRows :: "MailApp \<Rightarrow> row list" where
  "visibleRows s =
     (case mailList s of
        Rows rs \<Rightarrow> filter (\<lambda>r. display r \<noteq> ''none'') rs
      | _ \<Rightarrow> [])"

subsection \<open>Loading\<close>

text \<open>
  What \<^verbatim>\<open>fetch\<close> gives for an endpoint and an API key: \<open>None\<close> when the promise rejects
  (no answer from the network), else a response with its \<^verbatim>\<open>ok\<close> flag and the value
  \<^verbatim>\<open>json()\<close> parses from its body, \<open>None\<close> when the body is not valid JSON.
\<close>

record response =
  ok :: bool
  jsonBody :: "jsval option"

type_synonym server = "string \<Rightarrow> string \<Rightarrow> response option"

definition fetchWithApiKey :: "server \<Rightarrow> MailApp \<Rightarrow> string \<Rightarrow> response option" where
  "fetchWithApiKey fetch s endpoint = fetch endpoint (apiKey s)"

definition showLoading :: "MailApp \<Rightarrow> MailApp" where
  "showLoading s = s\<lparr>mailList := LoadingState, refreshLoading := True\<rparr>"

definition showError :: "string \<Rightarrow> MailApp \<Rightarrow> MailApp" where
  "showError message s = s\<lparr>mailList := ErrorState message, refreshLoading := False\<rparr>"

text \<open>\<^verbatim>\<open>showNotification\<close> logs its message to the console and resets the refresh button.\<close>

definition showNotification :: "string \<Rightarrow> MailApp \<Rightarrow> MailApp" where
  "showNotification message s = s\<lparr>refreshLoading := False\<rparr>"

text \<open>
  The \<^verbatim>\<open>try\<close> block of \<^verbatim>\<open>loadAllMail\<close>, with the state it leaves and the exception that
  reaches the \<^verbatim>\<open>catch\<close>, if any. \<^verbatim>\<open>Promise.all\<close> rejects when one of the three fetches
  rejects; the three bodies are parsed in order; then the \<^verbatim>\<open>ok\<close> flags are tested; then
  the three payloads are normalized in order and the object literal is assigned. Up to
  here an exception leaves the state the block started with. Then \<^verbatim>\<open>allMailItems\<close> is
  assigned and \<^verbatim>\<open>updateStats\<close> and \<^verbatim>\<open>displayMail\<close> run, still inside the \<^verbatim>\<open>try\<close>: an
  exception of \<^verbatim>\<open>displayMail\<close> reaches the \<^verbatim>\<open>catch\<close> with the store already replaced.
  The method is taken as one step: no other listener runs while it waits for the network.
\<close>

definition loadAllMailTry ::
  "browser \<Rightarrow> server \<Rightarrow> ambient \<Rightarrow> MailApp \<Rightarrow> (MailApp \<times> js_error option) \<times> ambient" where
  "loadAllMailTry br fetch a s =
     (case (fetchWithApiKey fetch s ''/api/public/v1/mail'',
            fetchWithApiKey fetch s ''/api/public/v1/letters'',
            fetchWithApiKey fetch s ''/api/public/v1/packages'') of
        (Some mailResponse, Some lettersResponse, Some packagesResponse) \<Rightarrow>
          (case jsonBody mailResponse of
             None \<Rightarrow> ((s, Some SyntaxError), a)
           | Some mailData \<Rightarrow>
          (case jsonBody lettersResponse of
             None \<Rightarrow> ((s, Some SyntaxError), a)
           | Some lettersData \<Rightarrow>
          (case jsonBody packagesResponse of
             None \<Rightarrow> ((s, Some SyntaxError), a)
           | Some packagesData \<Rightarrow>
          if \<not> ok mailResponse \<or> \<not> ok lettersResponse \<or> \<not> ok packagesResponse
          then ((s, Some FetchFailed), a)
          else
          (case normalizeMailData a mailData of
             (Inl e, a1) \<Rightarrow> ((s, Some e), a1)
           | (Inr m, a1) \<Rightarrow>
          (case normalizeLettersData a1 lettersData of
             (Inl e, a2) \<Rightarrow> ((s, Some e), a2)
           | (Inr l, a2) \<Rightarrow>
          (case normalizePackagesData a2 packagesData of
             (Inl e, a3) \<Rightarrow> ((s, Some e), a3)
           | (Inr p, a3) \<Rightarrow>
               let s1 = s\<lparr>mail := m, letters := l, packages := p\<rparr>;
                   s2 = s1\<lparr>allMailItems := mail s1 @ letters s1 @ packages s1\<rparr>;
                   s3 = updateStats s2;
                   (s4, thrown) = displayMail br s3
               in case thrown of
                    Some e \<Rightarrow> ((s4, Some e), a3)
                  | None \<Rightarrow> ((showNotification ''Mail loaded successfully!'' s4, None), a3)))))))
      | _ \<Rightarrow> ((s, Some NetworkError), a))"

definition loadAllMail :: "browser \<Rightarrow> server \<Rightarrow> ambient \<Rightarrow> MailApp \<Rightarrow> MailApp \<times> ambient" where
  "loadAllMail br fetch a s =
     (if apiKey s = [] then (showError ''Please enter and save your API key first'' s, a)
      else
        let s0 = showLoading s
        in case loadAllMailTry br fetch a s0 of
             ((s', None), a') \<Rightarrow> (s', a')
           | ((s', Some error), a') \<Rightarrow>
               (showError ''Failed to load mail. Please check your API key and try again.'' s', a'))"

section \<open>Detail view\<close>

record detail =
  d_label :: string
  d_value :: jsval

text \<open>\<^verbatim>\<open>if (v) details.push({ label: l, value: v })\<close>.\<close>

definition pushIf :: "jsval \<Rightarrow> string \<Rightarrow> detail list \<Rightarrow> detail list" where
  "pushIf v l details = (if truthy v then details @ [\<lparr> d_label = l, d_value = v \<rparr>] else details)"

definition extractDetails :: "item \<Rightarrow> js_error + detail list" where
  "extractDetails i =
     (let data = originalData i
      in if nullish data then Inl TypeError
         else
           let details = [];
               details = pushIf (get data ''id'') ''ID'' details;
               details = pushIf (get data ''status'') ''Status'' details;
               details = pushIf (get data ''tracking_number'') ''Tracking'' details;
               details = pushIf (get data ''carrier'') ''Carrier'' details;
               details = pushIf (get data ''weight'') ''Weight'' details;
               details = pushIf (get data ''dimensions'') ''Dimensions'' details;
               details = pushIf (get data ''sender_address'') ''Sender Address'' details;
               details = pushIf (get data ''recipient_address'') ''Recipient'' details;
               details = pushIf (get data ''estimated_delivery'') ''Est. Delivery'' details
           in Inr details)"

record location_point =
  lat :: jsval
  lng :: jsval
  label :: jsval

text \<open>
  \<^verbatim>\<open>extractLocationData\<close>; \<open>None\<close> is the \<^verbatim>\<open>null\<close> it returns at the end. The nested test
  of the first shape falls through to the second shape when either inner coordinate is
  falsy, which the conjunction says.
\<close>

definition extractLocationData :: "item \<Rightarrow> js_error + location_point option" where
  "extractLocationData i =
     (let data = originalData i
      in if nullish data then Inl TypeError
         else if truthy (get data ''location'')
                 \<and> truthy (get (get data ''location'') ''lat'')
                 \<and> truthy (get (get data ''location'') ''lng'')
         then Inr (Some \<lparr> lat = get (get data ''location'') ''lat'',
                           lng = get (get data ''location'') ''lng'',
                           label = jsOr (get (get data ''location'') ''label'') (JStr ''Location'') \<rparr>)
         else if truthy (get data ''latitude'') \<and> truthy (get data ''longitude'')
         then Inr (Some \<lparr> lat = get data ''latitude'',
                           lng = get data ''longitude'',
                           label = JStr ''Location'' \<rparr>)
         else if truthy (get data ''tracking_location'')
         then Inr (Some \<lparr> lat = get (get data ''tracking_location'') ''lat'',
                           lng = get (get data ''tracking_location'') ''lng'',
                           label = JStr ''Tracking Location'' \<rparr>)
         else Inr None)"

section \<open>Relative dates\<close>

text \<open>A whole number in a template literal: its decimal digits, with a sign when negative.\<close>

definition digitChar :: "nat \<Rightarrow> char" where
  "digitChar n = ''0123456789'' ! n"

function decimal :: "nat \<Rightarrow> string" where
  "decimal n = (if n < 10 then [digitChar n] else decimal (n div 10) @ [digitChar (n mod 10)])"
  by pat_completeness auto
termination
  by (relation "measure (\<lambda>n. n)") auto

definition numberToString :: "int \<Rightarrow> string" where
  "numberToString k = (if k < 0 then CHR ''-'' # decimal (nat (- k)) else decimal (nat k))"

text \<open>
  \<^verbatim>\<open>formatDate\<close>. \<open>now\<close> is the time value of \<^verbatim>\<open>new Date()\<close> and \<open>toLocaleDateString\<close> the
  browser's month-and-day text of a date. Both time values are whole milliseconds, so
  \<^verbatim>\<open>Math.floor(diffMs / c)\<close> is the floor division; with an Invalid Date every comparison
  with NaN is false and the last \<^verbatim>\<open>return\<close> is reached.
\<close>

definition formatDate :: "date_parser \<Rightarrow> (int option \<Rightarrow> string) \<Rightarrow> int \<Rightarrow> jsval \<Rightarrow> string" where
  "formatDate newDate toLocaleDateString now dateString =
     (case newDate dateString of
        None \<Rightarrow> toLocaleDateString None
      | Some t \<Rightarrow>
          let diffMs = now - t;
              diffMins = diffMs div 60000;
              diffHours = diffMs div 3600000;
              diffDays = diffMs div 86400000
          in if diffMins < 1 then ''now''
             else if diffMins < 60 then numberToString diffMins @ ''m''
             else if diffHours < 24 then numberToString diffHours @ ''h''
             else if diffDays < 7 then numberToString diffDays @ ''d''
             else toLocaleDateString (Some t))"

section \<open>What the specification says, as functions\<close>

text \<open>
  The specification's test for a raw field of a fallback chain or of the detail
  vocabulary: the field is present, it is not \<^verbatim>\<open>null\<close>, and it is not empty (the empty
  string). A chain in the specification's words: the first listed field that passes this
  test wins, else the default.
\<close>

definition presentNonEmpty :: "jsval \<Rightarrow> bool" where
  "presentNonEmpty v = (v \<noteq> JUndefined \<and> v \<noteq> JNull \<and> v \<noteq> JStr [])"

fun fallbackChain :: "jsval \<Rightarrow> string list \<Rightarrow> jsval \<Rightarrow> jsval" where
  "fallbackChain raw [] dflt = dflt"
| "fallbackChain raw (k # ks) dflt =
     (if presentNonEmpty (get raw k) then get raw k else fallbackChain raw ks dflt)"

text \<open>
  The chain as the program resolves it: the first listed field whose value is truthy
  wins, so that \<^verbatim>\<open>false\<close> and \<open>0\<close> are passed over like an absent field.
\<close>

fun truthyChain :: "jsval \<Rightarrow> string list \<Rightarrow> jsval \<Rightarrow> jsval" where
  "truthyChain raw [] dflt = dflt"
| "truthyChain raw (k # ks) dflt =
     (if truthy (get raw k) then get raw k else truthyChain raw ks dflt)"

text \<open>
  A raw field as the specification types it: a string, \<^verbatim>\<open>null\<close> or absent. On such a
  field the two tests agree.
\<close>

definition stringOrAbsent :: "jsval \<Rightarrow> bool" where
  "stringOrAbsent v = (case v of JStr t \<Rightarrow> True | JNull \<Rightarrow> True | JUndefined \<Rightarrow> True | _ \<Rightarrow> False)"

text \<open>The fixed vocabulary of the detail view, each key with the label it is shown under.\<close>

definition detailFields :: "(string \<times> string) list" where
  "detailFields =
     [(''id'', ''ID''), (''status'', ''Status''), (''tracking_number'', ''Tracking''),
      (''carrier'', ''Carrier''), (''weight'', ''Weight''), (''dimensions'', ''Dimensions''),
      (''sender_address'', ''Sender Address''), (''recipient_address'', ''Recipient''),
      (''estimated_delivery'', ''Est. Delivery'')]"

definition detailOf :: "jsval \<Rightarrow> string \<times> string \<Rightarrow> detail" where
  "detailOf raw kl = \<lparr> d_label = snd kl, d_value = get raw (fst kl) \<rparr>"

text \<open>
  The detail list in the specification's words: the keys of the vocabulary, in order, that
  are present and non-empty in the raw record.
\<close>

definition specDetails :: "jsval \<Rightarrow> detail list" where
  "specDetails raw =
     map (detailOf raw) (filter (\<lambda>kl. presentNonEmpty (get raw (fst kl))) detailFields)"


text \<open>
  A source fetch fails: no answer, a non-success status, or a body that is not valid JSON.
\<close>

definition sourceFails :: "response option \<Rightarrow> bool" where
  "sourceFails r = (case r of None \<Rightarrow> True | Some x \<Rightarrow> \<not> ok x \<or> jsonBody x = None)"

text \<open>
  The base sequence of a filter: \<open>mail\<close>, \<open>letters\<close> and \<open>packages\<close> select the category
  sequence, \<open>unread\<close> the unread items of the union, anything else (\<open>all\<close>) the union.
\<close>

definition baseSequence :: "string \<Rightarrow> MailApp \<Rightarrow> item list" where
  "baseSequence f s =
     (if f = ''mail'' then mail s
      else if f = ''letters'' then letters s
      else if f = ''packages'' then packages s
      else if f = ''unread'' then filter (\<lambda>i. truthy (unread i)) (allMailItems s)
      else allMailItems s)"

text \<open>
  The search predicate, on a row and on an item shown with a given text: the text
  contains the search text, both in lower case.
\<close>

definition rowMatches :: "browser \<Rightarrow> string \<Rightarrow> row \<Rightarrow> bool" where
  "rowMatches br q r = includes_str (lowerCase br (textContent r)) (lowerCase br q)"

definition matchesSearch :: "browser \<Rightarrow> renderer \<Rightarrow> string \<Rightarrow> item \<Rightarrow> bool" where
  "matchesSearch br liText q i = includes_str (lowerCase br (liText i)) (lowerCase br q)"

text \<open>The row of an item whose markup parses to one element, with the text \<open>liText\<close> gives.\<close>

definition itemRow :: "renderer \<Rightarrow> item \<Rightarrow> row" where
  "itemRow liText i = \<lparr> textContent = liText i, display = [] \<rparr>"

text \<open>The time value of an item's date when the date is valid, for use as a sorting key.\<close>

definition timeOf :: "browser \<Rightarrow> item \<Rightarrow> int" where
  "timeOf br i = (case dateValue br (date i) of Inr (Some t) \<Rightarrow> t | _ \<Rightarrow> 0)"

definition validDate :: "browser \<Rightarrow> item \<Rightarrow> bool" where
  "validDate br i = (case dateValue br (date i) of Inr (Some t) \<Rightarrow> True | _ \<Rightarrow> False)"


section \<open>Example inputs\<close>

text \<open>
  A random source that answers \<^verbatim>\<open>0.1\<close>, \<^verbatim>\<open>0.2\<close>, ... and a clock that stands still; a date
  parser that reads a number as a time value in milliseconds, as \<^verbatim>\<open>new Date(n)\<close> does
  (the fraction dropped, a value beyond the range of dates invalid), and nothing else; a
  renderer that shows sender, category, subject and preview of an item whose fields are
  strings.
\<close>

definition exampleAmbient :: ambient where
  "exampleAmbient = \<lparr> randomToken = (\<lambda>n. ''0.'' @ decimal (Suc n)), randomCalls = 0,
                       nowISO = (\<lambda>n. ''2024-05-01T12:00:00.000Z''), clockReads = 0 \<rparr>"

definition numericDate :: date_parser where
  "numericDate v =
     (case v of
        JNum n \<Rightarrow> if \<bar>n\<bar> \<le> 8640000000000000
                  then Some (if 0 \<le> n then \<lfloor>n\<rfloor> else \<lceil>n\<rceil>)
                  else None
      | _ \<Rightarrow> None)"

definition textOf :: "jsval \<Rightarrow> string" where
  "textOf v = (case v of JStr t \<Rightarrow> t | _ \<Rightarrow> [])"

definition exampleRenderer :: renderer where
  "exampleRenderer i =
     textOf (from_f i) @ '' '' @ type_f i @ '' '' @ textOf (subject i) @ '' '' @ textOf (preview i)"

text \<open>A month-and-day formatter for dates in January 1970; "Invalid Date" otherwise.\<close>

definition exampleLocaleDate :: "int option \<Rightarrow> string" where
  "exampleLocaleDate d =
     (case d of
        None \<Rightarrow> ''Invalid Date''
      | Some t \<Rightarrow> if 0 \<le> t \<and> t < 31 * 86400000
                  then ''Jan '' @ numberToString (t div 86400000 + 1)
                  else ''Invalid Date'')"

text \<open>An item of the package feed with a given raw record.\<close>

definition packageItem :: "jsval \<Rightarrow> item" where
  "packageItem raw = \<lparr> id_f = JStr ''p1'', type_f = ''package'', from_f = JStr ''Unknown'',
                        subject = JStr ''Package'', preview = JStr [], date = JNum 1000,
                        unread = JBool True, originalData = raw \<rparr>"

text \<open>
  Two raw mails and the items they normalize to; a server with these two mails, the older
  one first, no letters and no packages, whatever the API key.
\<close>

definition olderMail :: jsval where
  "olderMail = JObj [(''id'', JStr ''a''), (''subject'', JStr ''Invoice''), (''date'', JNum 1000)]"

definition newerMail :: jsval where
  "newerMail = JObj [(''id'', JStr ''b''), (''subject'', JStr ''Hello''), (''date'', JNum 2000)]"

definition olderItem :: item where
  "olderItem = \<lparr> id_f = JStr ''a'', type_f = ''mail'', from_f = JStr ''Unknown'',
                   subject = JStr ''Invoice'', preview = JStr [], date = JNum 1000,
                   unread = JBool True, originalData = olderMail \<rparr>"

definition newerItem :: item where
  "newerItem = \<lparr> id_f = JStr ''b'', type_f = ''mail'', from_f = JStr ''Unknown'',
                   subject = JStr ''Hello'', preview = JStr [], date = JNum 2000,
                   unread = JBool True, originalData = newerMail \<rparr>"



definition exampleServer :: server where
  "exampleServer endpoint key =
     (if endpoint = ''/api/public/v1/mail''
      then Some \<lparr> ok = True, jsonBody = Some (JArr [olderMail, newerMail]) \<rparr>
      else Some \<lparr> ok = True, jsonBody = Some (JArr []) \<rparr>)"

text \<open>The same server when the letters endpoint answers with a non-success status.\<close>

definition failingServer :: server where
  "failingServer endpoint key =
     (if endpoint = ''/api/public/v1/letters''
      then Some \<lparr> ok = False, jsonBody = Some (JObj [(''error'', JStr ''unauthorized'')]) \<rparr>
      else exampleServer endpoint key)"

text \<open>
  A raw mail whose \<open>unread\<close> field is the string \<^verbatim>\<open>"no"\<close>, the item it normalizes to, and a
  server with this one mail.
\<close>

definition textUnreadMail :: jsval where
  "textUnreadMail = JObj [(''id'', JStr ''c''), (''subject'', JStr ''Notice''), (''date'', JNum 3000),
                          (''unread'', JStr ''no'')]"

definition textUnreadItem :: item where
  "textUnreadItem = \<lparr> id_f = JStr ''c'', type_f = ''mail'', from_f = JStr ''Unknown'',
                        subject = JStr ''Notice'', preview = JStr [], date = JNum 3000,
                        unread = JStr ''no'', originalData = textUnreadMail \<rparr>"

definition textUnreadServer :: server where
  "textUnreadServer endpoint key =
     (if endpoint = ''/api/public/v1/mail''
      then Some \<lparr> ok = True, jsonBody = Some (JArr [textUnreadMail]) \<rparr>
      else Some \<lparr> ok = True, jsonBody = Some (JArr []) \<rparr>)"

text \<open>
  A raw package whose \<open>from\<close> is \<^verbatim>\<open>false\<close> and whose \<open>subject\<close> and \<open>status\<close> are \<open>0\<close>, and a
  raw record whose \<open>id\<close> and \<open>weight\<close> are \<open>0\<close> and whose \<open>status\<close> is \<^verbatim>\<open>false\<close>.
\<close>

definition zeroPackage :: jsval where
  "zeroPackage = JObj [(''from'', JBool False), (''carrier'', JStr ''DHL''), (''subject'', JNum 0),
                       (''tracking_number'', JStr ''T1''), (''status'', JNum 0)]"

definition zeroRecord :: jsval where
  "zeroRecord = JObj [(''id'', JNum 0), (''weight'', JNum 0), (''status'', JBool False)]"

text \<open>
  A browser for the examples. Its dates are those of \<open>numericDate\<close>, never an exception;
  its lower case is that of ASCII text; each item is rendered as one row with the text of
  \<open>exampleRenderer\<close>; its sort is a stable insertion sort that stops at the first exception
  of the comparator and then leaves the array as it was.
\<close>

definition asciiLowerChar :: "char \<Rightarrow> char" where
  "asciiLowerChar c =
     (case map_of (zip ''ABCDEFGHIJKLMNOPQRSTUVWXYZ'' ''abcdefghijklmnopqrstuvwxyz'') c of
        Some l \<Rightarrow> l
      | None \<Rightarrow> c)"

definition asciiLowerCase :: "string \<Rightarrow> string" where
  "asciiLowerCase t = map asciiLowerChar t"

fun insertSorted :: "('a \<Rightarrow> 'a \<Rightarrow> js_error + int) \<Rightarrow> 'a \<Rightarrow> 'a list \<Rightarrow> js_error + 'a list" where
  "insertSorted c x [] = Inr [x]"
| "insertSorted c x (y # ys) =
     (case c x y of
        Inl e \<Rightarrow> Inl e
      | Inr k \<Rightarrow>
          if k \<le> 0 then Inr (x # y # ys)
          else (case insertSorted c x ys of Inl e \<Rightarrow> Inl e | Inr zs \<Rightarrow> Inr (y # zs)))"

fun insertAll :: "('a \<Rightarrow> 'a \<Rightarrow> js_error + int) \<Rightarrow> 'a list \<Rightarrow> js_error + 'a list" where
  "insertAll c [] = Inr []"
| "insertAll c (x # xs) =
     (case insertAll c xs of Inl e \<Rightarrow> Inl e | Inr ys \<Rightarrow> insertSorted c x ys)"

definition insertionSort :: array_sort where
  "insertionSort c xs = (case insertAll c xs of Inl e \<Rightarrow> (xs, Some e) | Inr ys \<Rightarrow> (ys, None))"

definition exampleBrowser :: browser where
  "exampleBrowser = \<lparr> dateValue = (\<lambda>v. Inr (numericDate v)),
                       arraySort = insertionSort,
                       renderList = (\<lambda>xs. Inr (map (itemRow exampleRenderer) xs)),
                       lowerCase = asciiLowerCase \<rparr>"

text \<open>The application after the user has saved a key and loaded from the example server.\<close>

definition keyedApp :: MailApp where
  "keyedApp = newMailApp\<lparr>apiKey := ''key''\<rparr>"

definition loadedApp :: MailApp where
  "loadedApp = fst (loadAllMail exampleBrowser exampleServer exampleAmbient keyedApp)"

text \<open>The application after a load from the server whose mail has the text \<^verbatim>\<open>"no"\<close> as \<open>unread\<close>.\<close>

definition textUnreadApp :: MailApp where
  "textUnreadApp = fst (loadAllMail exampleBrowser textUnreadServer exampleAmbient keyedApp)"

section \<open>Truthiness and the specification's test\<close>

lemma truthy_iff:
  "truthy v = (v \<noteq> JUndefined \<and> v \<noteq> JNull \<and> v \<noteq> JBool False \<and> v \<noteq> JNum 0 \<and> v \<noteq> JStr [])"
  by (cases v) simp_all

lemma truthy_presentNonEmpty: "stringOrAbsent v \<Longrightarrow> truthy v = presentNonEmpty v"
  by (cases v) (simp_all add: stringOrAbsent_def presentNonEmpty_def)

lemma truthyChain_fallbackChain:
  "\<forall>k \<in> set ks. stringOrAbsent (get raw k) \<Longrightarrow> truthyChain raw ks dflt = fallbackChain raw ks dflt"
  by (induction ks) (simp_all add: truthy_presentNonEmpty)

section \<open>Normalization: the fallback chains\<close>

lemma normalizePackageItem_fields:
  assumes "\<not> nullish raw"
  shows "\<exists>i a'. normalizePackageItem a raw = (Inr i, a')
     \<and> from_f i = truthyChain raw [''from'', ''sender'', ''carrier''] (JStr ''Unknown'')
     \<and> subject i = truthyChain raw [''subject'', ''tracking_number''] (JStr ''Package'')
     \<and> preview i = truthyChain raw [''preview'', ''description'', ''status''] (JStr [])"
  using assms by (simp add: normalizePackageItem_def jsOr_def split: prod.splits)

lemma mapItems_package_fields:
  "\<forall>r \<in> set rs. \<not> nullish r \<Longrightarrow> \<exists>is a'. mapItems normalizePackageItem a rs = (Inr is, a')
     \<and> map from_f is = map (\<lambda>raw. truthyChain raw [''from'', ''sender'', ''carrier''] (JStr ''Unknown'')) rs
     \<and> map subject is = map (\<lambda>raw. truthyChain raw [''subject'', ''tracking_number''] (JStr ''Package'')) rs
     \<and> map preview is = map (\<lambda>raw. truthyChain raw [''preview'', ''description'', ''status''] (JStr [])) rs"
proof (induction rs arbitrary: a)
  case Nil
  then show ?case by simp
next
  case (Cons r rs)
  from Cons.prems have nn: "\<not> nullish r" by simp
  from normalizePackageItem_fields[OF nn, of a] obtain i a1 where
    h: "normalizePackageItem a r = (Inr i, a1)"
    "from_f i = truthyChain r [''from'', ''sender'', ''carrier''] (JStr ''Unknown'')"
    "subject i = truthyChain r [''subject'', ''tracking_number''] (JStr ''Package'')"
    "preview i = truthyChain r [''preview'', ''description'', ''status''] (JStr [])"
    by blast
  from Cons.prems have "\<forall>r \<in> set rs. \<not> nullish r" by simp
  from Cons.IH[OF this, of a1] obtain js a2 where
    t: "mapItems normalizePackageItem a1 rs = (Inr js, a2)"
     "map from_f js = map (\<lambda>raw. truthyChain raw [''from'', ''sender'', ''carrier''] (JStr ''Unknown'')) rs"
     "map subject js = map (\<lambda>raw. truthyChain raw [''subject'', ''tracking_number''] (JStr ''Package'')) rs"
     "map preview js = map (\<lambda>raw. truthyChain raw [''preview'', ''description'', ''status''] (JStr [])) rs"
    by blast
  have "mapItems normalizePackageItem a (r # rs) = (Inr (i # js), a2)"
    using h(1) t(1) by simp
  then show ?case using h t by simp
qed

lemma normalizePackagesData_unwrapped:
  assumes "truthy data" and "unwrapItems ''packages'' data = JArr rs"
  shows "normalizePackagesData a data = mapItems normalizePackageItem a rs"
  using assms by (simp add: normalizePackagesData_def isArray_def elements_def)

lemma unwrapItems_array: "unwrapItems key (JArr rs) = JArr rs"
  by (simp add: unwrapItems_def jsOr_def)

lemma chains_agree_on_strings:
  assumes "\<forall>raw \<in> set rs. \<forall>k \<in> set ks. stringOrAbsent (get raw k)"
  shows "map (\<lambda>raw. truthyChain raw ks dflt) rs = map (\<lambda>raw. fallbackChain raw ks dflt) rs"
  using assms by (intro map_cong refl truthyChain_fallbackChain) simp

text \<open>
  Claim C5, amended. For every package raw record, in a payload that is the array of
  records or wraps it under \<open>packages\<close> or \<open>data\<close>, normalization resolves \<open>from\<close> by the
  chain from, sender, carrier, "Unknown", \<open>subject\<close> by subject, tracking_number,
  "Package", and \<open>preview\<close> by preview, description, status, "", the first raw field whose
  value is truthy winning. When every field of the chains is a string, \<^verbatim>\<open>null\<close> or
  absent, this is the chain of the specification, in which the first field that is
  present and neither empty nor \<^verbatim>\<open>null\<close> wins. Normalizing the single record
  \<^verbatim>\<open>{tracking_number: "T1"}\<close> yields one item whose subject is "T1".
\<close>

theorem normalizePackagesData_fallback_chains:
  assumes "truthy data" and "unwrapItems ''packages'' data = JArr rs"
    and "\<forall>raw \<in> set rs. \<not> nullish raw"
  shows "(\<exists>items. fst (normalizePackagesData a data) = Inr items
      \<and> map from_f items =
          map (\<lambda>raw. truthyChain raw [''from'', ''sender'', ''carrier''] (JStr ''Unknown'')) rs
      \<and> map subject items =
          map (\<lambda>raw. truthyChain raw [''subject'', ''tracking_number''] (JStr ''Package'')) rs
      \<and> map preview items =
          map (\<lambda>raw. truthyChain raw [''preview'', ''description'', ''status''] (JStr [])) rs)
    \<and> ((\<forall>raw \<in> set rs.
           \<forall>k \<in> set [''from'', ''sender'', ''carrier'', ''subject'', ''tracking_number'',
                      ''preview'', ''description'', ''status'']. stringOrAbsent (get raw k))
        \<longrightarrow> (\<exists>items. fst (normalizePackagesData a data) = Inr items
      \<and> map from_f items =
          map (\<lambda>raw. fallbackChain raw [''from'', ''sender'', ''carrier''] (JStr ''Unknown'')) rs
      \<and> map subject items =
          map (\<lambda>raw. fallbackChain raw [''subject'', ''tracking_number''] (JStr ''Package'')) rs
      \<and> map preview items =
          map (\<lambda>raw. fallbackChain raw [''preview'', ''description'', ''status''] (JStr [])) rs))
    \<and> (rs = [JObj [(''tracking_number'', JStr ''T1'')]] \<longrightarrow>
         (\<exists>i. fst (normalizePackagesData a data) = Inr [i] \<and> subject i = JStr ''T1''))"
proof -
  from mapItems_package_fields[OF assms(3), of a] obtain items a' where
    m: "mapItems normalizePackageItem a rs = (Inr items, a')"
    and f: "map from_f items =
      map (\<lambda>raw. truthyChain raw [''from'', ''sender'', ''carrier''] (JStr ''Unknown'')) rs"
    and s: "map subject items =
      map (\<lambda>raw. truthyChain raw [''subject'', ''tracking_number''] (JStr ''Package'')) rs"
    and p: "map preview items =
      map (\<lambda>raw. truthyChain raw [''preview'', ''description'', ''status''] (JStr [])) rs"
    by blast
  have r: "fst (normalizePackagesData a data) = Inr items"
    using m by (simp add: normalizePackagesData_unwrapped[OF assms(1,2)])
  have one: "\<exists>i. Inr items = (Inr [i] :: js_error + item list) \<and> subject i = JStr ''T1''"
    if "rs = [JObj [(''tracking_number'', JStr ''T1'')]]"
  proof -
    from s that have "map subject items = [JStr ''T1'']" by simp
    then obtain i where "items = [i]" "subject i = JStr ''T1''" by auto
    then show ?thesis by simp
  qed
  have str: "map from_f items =
          map (\<lambda>raw. fallbackChain raw [''from'', ''sender'', ''carrier''] (JStr ''Unknown'')) rs
      \<and> map subject items =
          map (\<lambda>raw. fallbackChain raw [''subject'', ''tracking_number''] (JStr ''Package'')) rs
      \<and> map preview items =
          map (\<lambda>raw. fallbackChain raw [''preview'', ''description'', ''status''] (JStr [])) rs"
    if h: "\<forall>raw \<in> set rs.
           \<forall>k \<in> set [''from'', ''sender'', ''carrier'', ''subject'', ''tracking_number'',
                      ''preview'', ''description'', ''status'']. stringOrAbsent (get raw k)"
  proof -
    have "map (\<lambda>raw. truthyChain raw [''from'', ''sender'', ''carrier''] (JStr ''Unknown'')) rs
        = map (\<lambda>raw. fallbackChain raw [''from'', ''sender'', ''carrier''] (JStr ''Unknown'')) rs"
      using h by (intro chains_agree_on_strings) simp
    moreover have "map (\<lambda>raw. truthyChain raw [''subject'', ''tracking_number''] (JStr ''Package'')) rs
        = map (\<lambda>raw. fallbackChain raw [''subject'', ''tracking_number''] (JStr ''Package'')) rs"
      using h by (intro chains_agree_on_strings) simp
    moreover have "map (\<lambda>raw. truthyChain raw [''preview'', ''description'', ''status''] (JStr [])) rs
        = map (\<lambda>raw. fallbackChain raw [''preview'', ''description'', ''status''] (JStr [])) rs"
      using h by (intro chains_agree_on_strings) simp
    ultimately show ?thesis using f s p by simp
  qed
  from r f s p one str show ?thesis by (intro conjI impI exI[of _ items]) auto
qed

text \<open>
  A payload wrapped under \<open>packages\<close> whose record has a carrier and a status only, and the
  bare array with the record \<^verbatim>\<open>{tracking_number: "T1"}\<close>.
\<close>

theorem normalizePackagesData_fallback_chains_witness:
  "truthy (JObj [(''packages'', JArr [JObj [(''carrier'', JStr ''DHL''), (''status'', JStr ''sent'')]])])
   \<and> unwrapItems ''packages''
        (JObj [(''packages'', JArr [JObj [(''carrier'', JStr ''DHL''), (''status'', JStr ''sent'')]])])
       = JArr [JObj [(''carrier'', JStr ''DHL''), (''status'', JStr ''sent'')]]
   \<and> \<not> nullish (JObj [(''carrier'', JStr ''DHL''), (''status'', JStr ''sent'')])
   \<and> stringOrAbsent (get (JObj [(''carrier'', JStr ''DHL''), (''status'', JStr ''sent'')]) ''from'')
   \<and> stringOrAbsent (get (JObj [(''carrier'', JStr ''DHL''), (''status'', JStr ''sent'')]) ''carrier'')
   \<and> stringOrAbsent (get (JObj [(''carrier'', JStr ''DHL''), (''status'', JStr ''sent'')]) ''status'')
   \<and> (\<exists>items. fst (normalizePackagesData exampleAmbient
          (JObj [(''packages'', JArr [JObj [(''carrier'', JStr ''DHL''), (''status'', JStr ''sent'')]])]))
            = Inr items
        \<and> map from_f items = [JStr ''DHL'']
        \<and> map subject items = [JStr ''Package'']
        \<and> map preview items = [JStr ''sent''])
   \<and> fallbackChain (JObj [(''carrier'', JStr ''DHL''), (''status'', JStr ''sent'')])
        [''from'', ''sender'', ''carrier''] (JStr ''Unknown'') = JStr ''DHL''
   \<and> truthy (JArr [JObj [(''tracking_number'', JStr ''T1'')]])
   \<and> unwrapItems ''packages'' (JArr [JObj [(''tracking_number'', JStr ''T1'')]])
       = JArr [JObj [(''tracking_number'', JStr ''T1'')]]
   \<and> \<not> nullish (JObj [(''tracking_number'', JStr ''T1'')])
   \<and> (\<exists>i. fst (normalizePackagesData exampleAmbient (JArr [JObj [(''tracking_number'', JStr ''T1'')]]))
            = Inr [i] \<and> subject i = JStr ''T1'')"
  using normalizePackagesData_fallback_chains
    [of "JObj [(''packages'', JArr [JObj [(''carrier'', JStr ''DHL''), (''status'', JStr ''sent'')]])]"
        "[JObj [(''carrier'', JStr ''DHL''), (''status'', JStr ''sent'')]]" exampleAmbient]
    normalizePackagesData_fallback_chains
    [of "JArr [JObj [(''tracking_number'', JStr ''T1'')]]"
        "[JObj [(''tracking_number'', JStr ''T1'')]]" exampleAmbient]
  by (simp add: nullish_def unwrapItems_def jsOr_def stringOrAbsent_def presentNonEmpty_def)

text \<open>
  Claim C5 as stated does not hold. In the record \<open>zeroPackage\<close> the fields \<open>from\<close>,
  \<open>subject\<close> and \<open>status\<close> are present, not \<^verbatim>\<open>null\<close> and not empty, so that they win the
  chains of the specification; the program passes over them and takes the carrier, the
  tracking number and the default.
\<close>

theorem normalizePackagesData_skips_false_and_zero:
  "(\<exists>i. fst (normalizePackagesData exampleAmbient (JArr [zeroPackage])) = Inr [i]
        \<and> from_f i = JStr ''DHL'' \<and> subject i = JStr ''T1'' \<and> preview i = JStr [])
   \<and> fallbackChain zeroPackage [''from'', ''sender'', ''carrier''] (JStr ''Unknown'') = JBool False
   \<and> fallbackChain zeroPackage [''subject'', ''tracking_number''] (JStr ''Package'') = JNum 0
   \<and> fallbackChain zeroPackage [''preview'', ''description'', ''status''] (JStr []) = JNum 0"
  by (simp add: normalizePackagesData_def unwrapItems_def jsOr_def isArray_def elements_def
      normalizePackageItem_def nullish_def idOrRandom_def dateOrNow_def unreadOrTrue_def
      zeroPackage_def presentNonEmpty_def split: prod.splits)

section \<open>The detail view\<close>

lemma pushIf_append:
  "pushIf (get raw (fst kl)) (snd kl)
     (map (detailOf raw) (filter (\<lambda>kl. truthy (get raw (fst kl))) kls))
   = map (detailOf raw) (filter (\<lambda>kl. truthy (get raw (fst kl))) (kls @ [kl]))"
  by (simp add: pushIf_def detailOf_def)

lemma extractDetails_steps:
  assumes "\<not> nullish (originalData i)"
  shows "extractDetails i =
    Inr (map (detailOf (originalData i))
          (filter (\<lambda>kl. truthy (get (originalData i) (fst kl))) detailFields))"
proof -
  let ?raw = "originalData i"
  let ?sel = "\<lambda>kls. map (detailOf ?raw) (filter (\<lambda>kl. truthy (get ?raw (fst kl))) kls)"
  have step: "pushIf (get ?raw k) l (?sel kls) = ?sel (kls @ [(k, l)])" for k l kls
    using pushIf_append[of ?raw "(k, l)" kls] by simp
  have start: "[] = ?sel []" by simp
  have "extractDetails i = Inr (?sel detailFields)"
    using assms
    unfolding extractDetails_def Let_def detailFields_def
    apply (simp only: if_False)
    apply (subst start)
    apply (simp only: step append_Cons append_Nil)
    done
  then show ?thesis .
qed

lemma specDetails_on_strings:
  assumes "\<forall>kl \<in> set detailFields. stringOrAbsent (get raw (fst kl))"
  shows "map (detailOf raw) (filter (\<lambda>kl. truthy (get raw (fst kl))) detailFields) = specDetails raw"
proof -
  have "filter (\<lambda>kl. truthy (get raw (fst kl))) detailFields
      = filter (\<lambda>kl. presentNonEmpty (get raw (fst kl))) detailFields"
    using assms by (intro filter_cong refl) (simp add: truthy_presentNonEmpty)
  then show ?thesis by (simp add: specDetails_def)
qed

text \<open>
  Claim C8, amended. For every item with a raw record, \<^verbatim>\<open>extractDetails\<close> returns
  label/value pairs drawn only from the fixed key vocabulary (id, status,
  tracking_number, carrier, weight, dimensions, sender_address, recipient_address,
  estimated_delivery), in exactly that order, a key being included if and only if its
  value in the raw record is truthy. When every field of the vocabulary is a string,
  \<^verbatim>\<open>null\<close> or absent, this is the list of the specification, which includes a key if and
  only if it is present and non-empty.
\<close>

theorem extractDetails_fixed_vocabulary:
  assumes "\<not> nullish (originalData i)"
  shows "extractDetails i =
           Inr (map (detailOf (originalData i))
                 (filter (\<lambda>kl. truthy (get (originalData i) (fst kl))) detailFields))
       \<and> map fst detailFields =
           [''id'', ''status'', ''tracking_number'', ''carrier'', ''weight'', ''dimensions'',
            ''sender_address'', ''recipient_address'', ''estimated_delivery'']
       \<and> ((\<forall>kl \<in> set detailFields. stringOrAbsent (get (originalData i) (fst kl)))
          \<longrightarrow> extractDetails i = Inr (specDetails (originalData i)))"
  using extractDetails_steps[OF assms] specDetails_on_strings[of "originalData i"]
  by (simp add: detailFields_def)

text \<open>
  A raw record with a field outside the vocabulary, a carrier, an empty weight and an id.
\<close>

theorem extractDetails_fixed_vocabulary_witness:
  "\<not> nullish (JObj [(''note'', JStr ''fragile''), (''carrier'', JStr ''DHL''), (''weight'', JStr []),
                      (''id'', JStr ''p1'')])
   \<and> extractDetails (packageItem (JObj [(''note'', JStr ''fragile''), (''carrier'', JStr ''DHL''),
                                         (''weight'', JStr []), (''id'', JStr ''p1'')]))
     = Inr [\<lparr> d_label = ''ID'', d_value = JStr ''p1'' \<rparr>,
            \<lparr> d_label = ''Carrier'', d_value = JStr ''DHL'' \<rparr>]
   \<and> specDetails (JObj [(''note'', JStr ''fragile''), (''carrier'', JStr ''DHL''),
                         (''weight'', JStr []), (''id'', JStr ''p1'')])
     = [\<lparr> d_label = ''ID'', d_value = JStr ''p1'' \<rparr>,
        \<lparr> d_label = ''Carrier'', d_value = JStr ''DHL'' \<rparr>]"
  using extractDetails_fixed_vocabulary
    [of "packageItem (JObj [(''note'', JStr ''fragile''), (''carrier'', JStr ''DHL''),
                            (''weight'', JStr []), (''id'', JStr ''p1'')])"]
  by (simp add: packageItem_def nullish_def detailFields_def detailOf_def specDetails_def
      stringOrAbsent_def presentNonEmpty_def)

text \<open>
  Claim C8 as stated does not hold. In the record \<open>zeroRecord\<close> the keys \<open>id\<close>, \<open>status\<close>
  and \<open>weight\<close> are present and non-empty, with the values \<open>0\<close>, \<^verbatim>\<open>false\<close> and \<open>0\<close>; the
  program returns no pair at all.
\<close>

theorem extractDetails_drops_false_and_zero:
  "extractDetails (packageItem zeroRecord) = Inr []
   \<and> specDetails zeroRecord = [\<lparr> d_label = ''ID'', d_value = JNum 0 \<rparr>,
                               \<lparr> d_label = ''Status'', d_value = JBool False \<rparr>,
                               \<lparr> d_label = ''Weight'', d_value = JNum 0 \<rparr>]"
  by (simp add: extractDetails_def pushIf_def packageItem_def zeroRecord_def nullish_def
      specDetails_def detailFields_def detailOf_def presentNonEmpty_def)

section \<open>Every normalized item keeps a raw record\<close>

lemma mapItems_all:
  assumes "\<And>a x y a1. f a x = (Inr y, a1) \<Longrightarrow> P y"
    and "mapItems f a xs = (Inr ys, a')"
  shows "\<forall>y \<in> set ys. P y"
  using assms(2)
proof (induction xs arbitrary: a ys)
  case Nil
  then show ?case by simp
next
  case (Cons x xs)
  then show ?case
    by (auto split: prod.splits sum.splits dest: assms(1))
qed

lemma normalizedItem_raw_not_nullish:
  "normalizeMailItem a x = (Inr y, a1) \<Longrightarrow> \<not> nullish (originalData y)"
  "normalizeLetterItem a x = (Inr y, a1) \<Longrightarrow> \<not> nullish (originalData y)"
  "normalizePackageItem a x = (Inr y, a1) \<Longrightarrow> \<not> nullish (originalData y)"
  by (auto simp add: normalizeMailItem_def normalizeLetterItem_def normalizePackageItem_def
      split: if_splits prod.splits)

lemma normalized_raw_not_nullish:
  "normalizeMailData a data = (Inr items, a') \<Longrightarrow> \<forall>i \<in> set items. \<not> nullish (originalData i)"
  "normalizeLettersData a data = (Inr items, a') \<Longrightarrow> \<forall>i \<in> set items. \<not> nullish (originalData i)"
  "normalizePackagesData a data = (Inr items, a') \<Longrightarrow> \<forall>i \<in> set items. \<not> nullish (originalData i)"
proof -
  assume "normalizeMailData a data = (Inr items, a')"
  then consider "items = []"
    | "mapItems normalizeMailItem a (elements (unwrapItems ''mail'' data)) = (Inr items, a')"
    by (auto simp add: normalizeMailData_def Let_def split: if_splits)
  then show "\<forall>i \<in> set items. \<not> nullish (originalData i)"
  proof cases
    case 1
    then show ?thesis by simp
  next
    case 2
    then show ?thesis
      by (rule mapItems_all[rotated]) (rule normalizedItem_raw_not_nullish)
  qed
next
  assume "normalizeLettersData a data = (Inr items, a')"
  then consider "items = []"
    | "mapItems normalizeLetterItem a (elements (unwrapItems ''letters'' data)) = (Inr items, a')"
    by (auto simp add: normalizeLettersData_def Let_def split: if_splits)
  then show "\<forall>i \<in> set items. \<not> nullish (originalData i)"
  proof cases
    case 1
    then show ?thesis by simp
  next
    case 2
    then show ?thesis
      by (rule mapItems_all[rotated]) (rule normalizedItem_raw_not_nullish)
  qed
next
  assume "normalizePackagesData a data = (Inr items, a')"
  then consider "items = []"
    | "mapItems normalizePackageItem a (elements (unwrapItems ''packages'' data)) = (Inr items, a')"
    by (auto simp add: normalizePackagesData_def Let_def split: if_splits)
  then show "\<forall>i \<in> set items. \<not> nullish (originalData i)"
  proof cases
    case 1
    then show ?thesis by simp
  next
    case 2
    then show ?thesis
      by (rule mapItems_all[rotated]) (rule normalizedItem_raw_not_nullish)
  qed
qed

section \<open>Location\<close>

text \<open>
  Claim C6, at the input where the code departs from it. The claim: the three shapes are
  tried in order, the first that yields both coordinates is returned, and when no shape
  yields both the result is none, never a partial point. The third shape is returned
  without a test of its coordinates: a raw record whose only location is
  \<^verbatim>\<open>tracking_location: {lat: 48}\<close> gives a point whose \<open>lng\<close> is \<^verbatim>\<open>undefined\<close>.
\<close>

theorem extractLocationData_tracking_partial_point:
  "extractLocationData (i\<lparr>originalData := JObj [(''tracking_location'', JObj [(''lat'', JNum 48)])]\<rparr>)
     = Inr (Some \<lparr> lat = JNum 48, lng = JUndefined, label = JStr ''Tracking Location'' \<rparr>)"
  by (simp add: extractLocationData_def nullish_def)

text \<open>The same at a package item.\<close>

theorem extractLocationData_tracking_partial_point_witness:
  "extractLocationData (packageItem (JObj [(''tracking_location'', JObj [(''lat'', JNum 48)])]))
     = Inr (Some \<lparr> lat = JNum 48, lng = JUndefined, label = JStr ''Tracking Location'' \<rparr>)"
  using extractLocationData_tracking_partial_point[of "packageItem JNull"]
  by (simp add: packageItem_def)







section \<open>Relative dates: the thresholds\<close>

lemma numberToString_one: "numberToString 1 = ''1''"
  by (simp add: numberToString_def digitChar_def)

text \<open>
  Claim C7. For every timestamp and \<open>now\<close> with \<open>now \<ge> timestamp\<close>, the formatter returns
  "now" when the difference is under 1 minute, "{m}m" under 60 minutes, "{h}h" under 24
  hours, "{d}d" under 7 days and the absolute month-and-day date otherwise; the thresholds
  are half-open: exactly 60 minutes is "1h", exactly 24 hours is "1d", exactly 7 days is
  the absolute date. Times are in milliseconds.
\<close>

theorem formatDate_thresholds:
  assumes "newDate v = Some t" and "t \<le> now"
  shows "(now - t < 60000 \<longrightarrow> formatDate newDate fmt now v = ''now'')
    \<and> (60000 \<le> now - t \<and> now - t < 3600000
         \<longrightarrow> formatDate newDate fmt now v = numberToString ((now - t) div 60000) @ ''m'')
    \<and> (3600000 \<le> now - t \<and> now - t < 86400000
         \<longrightarrow> formatDate newDate fmt now v = numberToString ((now - t) div 3600000) @ ''h'')
    \<and> (86400000 \<le> now - t \<and> now - t < 604800000
         \<longrightarrow> formatDate newDate fmt now v = numberToString ((now - t) div 86400000) @ ''d'')
    \<and> (604800000 \<le> now - t \<longrightarrow> formatDate newDate fmt now v = fmt (Some t))
    \<and> (now - t = 3600000 \<longrightarrow> formatDate newDate fmt now v = ''1h'')
    \<and> (now - t = 86400000 \<longrightarrow> formatDate newDate fmt now v = ''1d'')
    \<and> (now - t = 604800000 \<longrightarrow> formatDate newDate fmt now v = fmt (Some t))"
proof -
  let ?d = "now - t"
  have f: "formatDate newDate fmt now v =
     (if ?d div 60000 < 1 then ''now''
      else if ?d div 60000 < 60 then numberToString (?d div 60000) @ ''m''
      else if ?d div 3600000 < 24 then numberToString (?d div 3600000) @ ''h''
      else if ?d div 86400000 < 7 then numberToString (?d div 86400000) @ ''d''
      else fmt (Some t))"
    using assms(1) by (simp add: formatDate_def Let_def)
  have m1: "(?d div 60000 < 1) = (?d < 60000)" by linarith
  have m60: "(?d div 60000 < 60) = (?d < 3600000)" by linarith
  have h24: "(?d div 3600000 < 24) = (?d < 86400000)" by linarith
  have d7: "(?d div 86400000 < 7) = (?d < 604800000)" by linarith
  have g: "formatDate newDate fmt now v =
     (if ?d < 60000 then ''now''
      else if ?d < 3600000 then numberToString (?d div 60000) @ ''m''
      else if ?d < 86400000 then numberToString (?d div 3600000) @ ''h''
      else if ?d < 604800000 then numberToString (?d div 86400000) @ ''d''
      else fmt (Some t))"
    unfolding f m1 m60 h24 d7 ..
  have c1: "?d < 60000 \<longrightarrow> formatDate newDate fmt now v = ''now''"
    by (simp add: g)
  have c2: "60000 \<le> ?d \<and> ?d < 3600000
         \<longrightarrow> formatDate newDate fmt now v = numberToString (?d div 60000) @ ''m''"
    by (simp add: g)
  have c3: "3600000 \<le> ?d \<and> ?d < 86400000
         \<longrightarrow> formatDate newDate fmt now v = numberToString (?d div 3600000) @ ''h''"
    by (simp add: g)
  have c4: "86400000 \<le> ?d \<and> ?d < 604800000
         \<longrightarrow> formatDate newDate fmt now v = numberToString (?d div 86400000) @ ''d''"
    by (simp add: g)
  have c5: "604800000 \<le> ?d \<longrightarrow> formatDate newDate fmt now v = fmt (Some t)"
    by (simp add: g)
  have c6: "?d = 3600000 \<longrightarrow> formatDate newDate fmt now v = ''1h''"
    by (simp add: g numberToString_one)
  have c7: "?d = 86400000 \<longrightarrow> formatDate newDate fmt now v = ''1d''"
    by (simp add: g numberToString_one)
  have c8: "?d = 604800000 \<longrightarrow> formatDate newDate fmt now v = fmt (Some t)"
    by (simp add: g)
  from c1 c2 c3 c4 c5 c6 c7 c8 show ?thesis by blast
qed

text \<open>
  A timestamp of \<open>0\<close> read at 0 minutes, 59 minutes, 60 minutes, 23 hours 59 minutes,
  24 hours, 6 days 23 hours and 7 days.
\<close>

theorem formatDate_thresholds_witness:
  "numericDate (JNum 0) = Some 0
   \<and> formatDate numericDate exampleLocaleDate 0 (JNum 0) = ''now''
   \<and> formatDate numericDate exampleLocaleDate 3540000 (JNum 0) = ''59m''
   \<and> formatDate numericDate exampleLocaleDate 3600000 (JNum 0) = ''1h''
   \<and> formatDate numericDate exampleLocaleDate 86340000 (JNum 0) = ''23h''
   \<and> formatDate numericDate exampleLocaleDate 86400000 (JNum 0) = ''1d''
   \<and> formatDate numericDate exampleLocaleDate 601200000 (JNum 0) = ''6d''
   \<and> formatDate numericDate exampleLocaleDate 604800000 (JNum 0) = ''Jan 1''"
proof -
  have p: "numericDate (JNum 0) = Some 0" by (simp add: numericDate_def)
  have n59: "numberToString 59 = ''59''" by (simp add: numberToString_def digitChar_def)
  have n23: "numberToString 23 = ''23''" by (simp add: numberToString_def digitChar_def)
  have n6: "numberToString 6 = ''6''" by (simp add: numberToString_def digitChar_def)
  show ?thesis
    using p
      formatDate_thresholds[of numericDate "JNum 0" 0 0 exampleLocaleDate]
      formatDate_thresholds[of numericDate "JNum 0" 0 3540000 exampleLocaleDate]
      formatDate_thresholds[of numericDate "JNum 0" 0 3600000 exampleLocaleDate]
      formatDate_thresholds[of numericDate "JNum 0" 0 86340000 exampleLocaleDate]
      formatDate_thresholds[of numericDate "JNum 0" 0 86400000 exampleLocaleDate]
      formatDate_thresholds[of numericDate "JNum 0" 0 601200000 exampleLocaleDate]
      formatDate_thresholds[of numericDate "JNum 0" 0 604800000 exampleLocaleDate]
    by (simp add: n59 n23 n6 numberToString_one exampleLocaleDate_def)
qed

section \<open>The example sort is a sort of the language\<close>

lemma insertSorted_mset:
  "insertSorted c x ys = Inr zs \<Longrightarrow> mset zs = add_mset x (mset ys)"
  by (induction ys arbitrary: zs) (auto split: sum.splits if_splits)

lemma insertAll_mset: "insertAll c xs = Inr ys \<Longrightarrow> mset ys = mset xs"
  by (induction xs arbitrary: ys) (auto split: sum.splits dest: insertSorted_mset)

lemma insertSorted_returns:
  assumes "\<forall>y \<in> set ys. \<exists>k. c x y = Inr k"
  shows "\<exists>zs. insertSorted c x ys = Inr zs"
  using assms by (induction ys) (auto split: sum.splits)

lemma insertAll_returns:
  assumes "\<forall>a \<in> set xs. \<forall>b \<in> set xs. \<exists>k. c a b = Inr k"
  shows "\<exists>ys. insertAll c xs = Inr ys"
  using assms
proof (induction xs)
  case Nil
  then show ?case by simp
next
  case (Cons x xs)
  then obtain ys where ys: "insertAll c xs = Inr ys" by auto
  then have "set ys = set xs" using insertAll_mset by (metis set_mset_mset)
  with Cons.prems have "\<forall>y \<in> set ys. \<exists>k. c x y = Inr k" by simp
  then obtain zs where "insertSorted c x ys = Inr zs"
    using insertSorted_returns[of ys c x] by blast
  with ys show ?case by simp
qed

lemma insertSorted_insort_key:
  assumes "\<forall>y \<in> set ys. c x y = Inr (key y - key x)"
  shows "insertSorted c x ys = Inr (insort_key (\<lambda>i. - key i) x ys)"
  using assms by (induction ys) (auto simp del: insort_key.simps simp add: insort_key.simps)

lemma insertAll_sort_key:
  assumes "\<forall>a \<in> set xs. \<forall>b \<in> set xs. c a b = Inr (key b - key a)"
  shows "insertAll c xs = Inr (sort_key (\<lambda>i. - key i) xs)"
  using assms
proof (induction xs)
  case Nil
  then show ?case by simp
next
  case (Cons x xs)
  then have ih: "insertAll c xs = Inr (sort_key (\<lambda>i. - key i) xs)" by simp
  have "\<forall>y \<in> set (sort_key (\<lambda>i. - key i) xs). c x y = Inr (key y - key x)"
    using Cons.prems by simp
  then have "insertSorted c x (sort_key (\<lambda>i. - key i) xs) =
      Inr (insort_key (\<lambda>i. - key i) x (sort_key (\<lambda>i. - key i) xs))"
    by (rule insertSorted_insort_key)
  with ih show ?case by simp
qed

lemma engineSort_insertionSort: "engineSort insertionSort"
  unfolding engineSort_def
proof (intro allI conjI impI)
  fix c :: comparator and xs
  assume "snd (insertionSort c xs) = None"
  then show "mset (fst (insertionSort c xs)) = mset xs"
    by (auto simp add: insertionSort_def split: sum.splits dest: insertAll_mset)
next
  fix c :: comparator and xs
  assume "\<forall>a \<in> set xs. \<forall>b \<in> set xs. \<exists>k. c a b = Inr k"
  from insertAll_returns[OF this] show "snd (insertionSort c xs) = None"
    by (auto simp add: insertionSort_def)
next
  fix c :: comparator and xs and key :: "item \<Rightarrow> int"
  assume "\<forall>a \<in> set xs. \<forall>b \<in> set xs. c a b = Inr (key b - key a)"
  from insertAll_sort_key[OF this]
  show "insertionSort c xs = (sort_key (\<lambda>i. - key i) xs, None)"
    by (simp add: insertionSort_def)
qed

section \<open>What a sort of the language guarantees\<close>

lemma engineSort_mset:
  "engineSort srt \<Longrightarrow> snd (srt c xs) = None \<Longrightarrow> mset (fst (srt c xs)) = mset xs"
  by (simp add: engineSort_def)

lemma engineSort_length:
  "engineSort srt \<Longrightarrow> snd (srt c xs) = None \<Longrightarrow> length (fst (srt c xs)) = length xs"
  using engineSort_mset by (metis size_mset)

lemma engineSort_set:
  "engineSort srt \<Longrightarrow> snd (srt c xs) = None \<Longrightarrow> set (fst (srt c xs)) = set xs"
  using engineSort_mset by (metis set_mset_mset)

lemma engineSort_count:
  assumes "engineSort srt" and "snd (srt c xs) = None"
  shows "length (filter P (fst (srt c xs))) = length (filter P xs)"
proof -
  have "mset (filter P (fst (srt c xs))) = mset (filter P xs)"
    using engineSort_mset[OF assms] by simp
  then show ?thesis by (metis size_mset)
qed

lemma engineSort_key:
  "engineSort srt \<Longrightarrow> \<forall>a \<in> set xs. \<forall>b \<in> set xs. c a b = Inr (key b - key a)
     \<Longrightarrow> srt c xs = (sort_key (\<lambda>i. - key i) xs, None)"
  by (simp add: engineSort_def)

lemma compareDates_valid:
  "validDate br a \<Longrightarrow> validDate br b \<Longrightarrow> compareDates br a b = Inr (timeOf br b - timeOf br a)"
  by (auto simp add: validDate_def timeOf_def compareDates_def split: sum.splits option.splits)

lemma engineSort_valid_dates:
  assumes "engineSort (arraySort br)" and "\<forall>i \<in> set xs. validDate br i"
  shows "arraySort br (compareDates br) xs = (sort_key (\<lambda>i. - timeOf br i) xs, None)"
  using assms by (intro engineSort_key) (simp_all add: compareDates_valid)

section \<open>What displaying writes\<close>

lemma deref_select_base:
  "deref s (selectArray s) = baseSequence (currentFilter s) s"
  by (simp add: deref_def selectArray_def baseSequence_def)

lemma displayMail_result:
  assumes "arraySort br (compareDates br) (baseSequence (currentFilter s) s) = (xs, t)"
  shows "displayMail br s =
     (case t of
        Some e \<Rightarrow> (assign (selectArray s) xs s, Some e)
      | None \<Rightarrow>
          if xs = [] then ((assign (selectArray s) xs s)\<lparr>mailList := EmptyState\<rparr>, None)
          else (case renderList br xs of
                  Inl e \<Rightarrow> (assign (selectArray s) xs s, Some e)
                | Inr rows \<Rightarrow> ((assign (selectArray s) xs s)\<lparr>mailList := Rows rows\<rparr>, None)))"
  by (simp add: displayMail_def Let_def deref_select_base assms)

lemma displayMail_state:
  "\<exists>ml. fst (displayMail br s) =
     (assign (selectArray s)
        (fst (arraySort br (compareDates br) (baseSequence (currentFilter s) s))) s)
     \<lparr>mailList := ml\<rparr>"
proof -
  obtain xs t where r: "arraySort br (compareDates br) (baseSequence (currentFilter s) s) = (xs, t)"
    by (cases "arraySort br (compareDates br) (baseSequence (currentFilter s) s)") auto
  have triv: "u = u\<lparr>mailList := mailList u\<rparr>" for u :: MailApp by simp
  show ?thesis
    unfolding r displayMail_result[OF r] fst_conv
    by (auto split: option.splits sum.splits intro: triv)
qed

lemma displayMail_mail:
  "mail (fst (displayMail br s)) =
     (if currentFilter s = ''mail'' then fst (arraySort br (compareDates br) (mail s)) else mail s)"
proof -
  obtain ml where "fst (displayMail br s) =
     (assign (selectArray s)
        (fst (arraySort br (compareDates br) (baseSequence (currentFilter s) s))) s)
     \<lparr>mailList := ml\<rparr>" using displayMail_state by blast
  then show ?thesis by (simp add: assign_def selectArray_def baseSequence_def)
qed

lemma displayMail_letters:
  "letters (fst (displayMail br s)) =
     (if currentFilter s = ''letters'' then fst (arraySort br (compareDates br) (letters s))
      else letters s)"
proof -
  obtain ml where "fst (displayMail br s) =
     (assign (selectArray s)
        (fst (arraySort br (compareDates br) (baseSequence (currentFilter s) s))) s)
     \<lparr>mailList := ml\<rparr>" using displayMail_state by blast
  then show ?thesis by (simp add: assign_def selectArray_def baseSequence_def)
qed

lemma displayMail_packages:
  "packages (fst (displayMail br s)) =
     (if currentFilter s = ''packages'' then fst (arraySort br (compareDates br) (packages s))
      else packages s)"
proof -
  obtain ml where "fst (displayMail br s) =
     (assign (selectArray s)
        (fst (arraySort br (compareDates br) (baseSequence (currentFilter s) s))) s)
     \<lparr>mailList := ml\<rparr>" using displayMail_state by blast
  then show ?thesis by (simp add: assign_def selectArray_def baseSequence_def)
qed

lemma displayMail_allMailItems:
  "allMailItems (fst (displayMail br s)) =
     (if currentFilter s \<in> {''mail'', ''letters'', ''packages'', ''unread''} then allMailItems s
      else fst (arraySort br (compareDates br) (allMailItems s)))"
proof -
  obtain ml where "fst (displayMail br s) =
     (assign (selectArray s)
        (fst (arraySort br (compareDates br) (baseSequence (currentFilter s) s))) s)
     \<lparr>mailList := ml\<rparr>" using displayMail_state by blast
  then show ?thesis by (simp add: assign_def selectArray_def baseSequence_def)
qed

lemma displayMail_others:
  "currentFilter (fst (displayMail br s)) = currentFilter s"
  "apiKey (fst (displayMail br s)) = apiKey s"
  "searchBox (fst (displayMail br s)) = searchBox s"
  "statsCards (fst (displayMail br s)) = statsCards s"
proof -
  obtain ml where e: "fst (displayMail br s) =
     (assign (selectArray s)
        (fst (arraySort br (compareDates br) (baseSequence (currentFilter s) s))) s)
     \<lparr>mailList := ml\<rparr>" using displayMail_state by blast
  show "currentFilter (fst (displayMail br s)) = currentFilter s"
    unfolding e by (cases "selectArray s") (simp_all add: assign_def)
  show "apiKey (fst (displayMail br s)) = apiKey s"
    unfolding e by (cases "selectArray s") (simp_all add: assign_def)
  show "searchBox (fst (displayMail br s)) = searchBox s"
    unfolding e by (cases "selectArray s") (simp_all add: assign_def)
  show "statsCards (fst (displayMail br s)) = statsCards s"
    unfolding e by (cases "selectArray s") (simp_all add: assign_def)
qed

lemma mailList_assign: "mailList (assign r xs s) = mailList s"
  by (cases r) (simp_all add: assign_def)

lemma displayMail_mailList:
  assumes "arraySort br (compareDates br) (baseSequence (currentFilter s) s) = (xs, t)"
  shows "mailList (fst (displayMail br s)) =
     (case t of
        Some e \<Rightarrow> mailList s
      | None \<Rightarrow>
          if xs = [] then EmptyState
          else (case renderList br xs of Inl e \<Rightarrow> mailList s | Inr rows \<Rightarrow> Rows rows))"
  unfolding displayMail_result[OF assms]
  by (simp add: mailList_assign split: option.splits sum.splits)

lemma displayMail_thrown:
  assumes "arraySort br (compareDates br) (baseSequence (currentFilter s) s) = (xs, t)"
  shows "snd (displayMail br s) =
     (case t of
        Some e \<Rightarrow> Some e
      | None \<Rightarrow>
          if xs = [] then None
          else (case renderList br xs of Inl e \<Rightarrow> Some e | Inr rows \<Rightarrow> None))"
  unfolding displayMail_result[OF assms]
  by (simp split: option.splits sum.splits)

section \<open>The example load, step by step\<close>

lemma normalizeMailItem_older:
  "normalizeMailItem a olderMail =
     (Inr \<lparr> id_f = JStr ''a'', type_f = ''mail'', from_f = JStr ''Unknown'',
             subject = JStr ''Invoice'', preview = JStr [], date = JNum 1000,
             unread = JBool True, originalData = olderMail \<rparr>, a)"
  by (simp add: normalizeMailItem_def olderMail_def nullish_def idOrRandom_def dateOrNow_def
      jsOr_def unreadOrTrue_def)

lemma normalizeMailItem_newer:
  "normalizeMailItem a newerMail =
     (Inr \<lparr> id_f = JStr ''b'', type_f = ''mail'', from_f = JStr ''Unknown'',
             subject = JStr ''Hello'', preview = JStr [], date = JNum 2000,
             unread = JBool True, originalData = newerMail \<rparr>, a)"
  by (simp add: normalizeMailItem_def newerMail_def nullish_def idOrRandom_def dateOrNow_def
      jsOr_def unreadOrTrue_def)

lemma normalize_empty_array:
  "normalizeMailData a (JArr []) = (Inr [], a)"
  "normalizeLettersData a (JArr []) = (Inr [], a)"
  "normalizePackagesData a (JArr []) = (Inr [], a)"
  by (simp_all add: normalizeMailData_def normalizeLettersData_def normalizePackagesData_def
      unwrapItems_def jsOr_def isArray_def elements_def)

lemma normalizeMailData_example:
  "normalizeMailData a (JArr [olderMail, newerMail]) =
     (Inr [olderItem, newerItem], a)"
  by (simp add: normalizeMailData_def unwrapItems_def jsOr_def isArray_def elements_def
      normalizeMailItem_older normalizeMailItem_newer olderItem_def newerItem_def)

lemma normalizeMailData_textUnread:
  "normalizeMailData a (JArr [textUnreadMail]) = (Inr [textUnreadItem], a)"
  by (simp add: normalizeMailData_def unwrapItems_def jsOr_def isArray_def elements_def
      normalizeMailItem_def textUnreadMail_def textUnreadItem_def nullish_def idOrRandom_def
      dateOrNow_def unreadOrTrue_def)

lemma compare_example:
  "compareDates exampleBrowser olderItem newerItem = Inr 1000"
  "compareDates exampleBrowser newerItem olderItem = Inr (- 1000)"
  by (simp_all add: compareDates_def exampleBrowser_def numericDate_def olderItem_def
      newerItem_def)

lemma sort_example:
  "arraySort exampleBrowser (compareDates exampleBrowser) [olderItem, newerItem]
     = ([newerItem, olderItem], None)"
  "arraySort exampleBrowser (compareDates exampleBrowser) [newerItem, olderItem]
     = ([newerItem, olderItem], None)"
  "arraySort exampleBrowser c [i] = ([i], None)"
  "arraySort exampleBrowser c [] = ([], None)"
  by (simp_all add: exampleBrowser_def insertionSort_def compare_example[unfolded exampleBrowser_def])

lemma render_example:
  "renderList exampleBrowser xs = Inr (map (itemRow exampleRenderer) xs)"
  by (simp add: exampleBrowser_def)

lemma engineSort_example: "engineSort (arraySort exampleBrowser)"
  by (simp add: exampleBrowser_def engineSort_insertionSort)

lemma fetch_example:
  "fetchWithApiKey exampleServer s ''/api/public/v1/mail'' =
     Some \<lparr> ok = True, jsonBody = Some (JArr [olderMail, newerMail]) \<rparr>"
  "fetchWithApiKey exampleServer s ''/api/public/v1/letters'' =
     Some \<lparr> ok = True, jsonBody = Some (JArr []) \<rparr>"
  "fetchWithApiKey exampleServer s ''/api/public/v1/packages'' =
     Some \<lparr> ok = True, jsonBody = Some (JArr []) \<rparr>"
  "fetchWithApiKey textUnreadServer s ''/api/public/v1/mail'' =
     Some \<lparr> ok = True, jsonBody = Some (JArr [textUnreadMail]) \<rparr>"
  "fetchWithApiKey textUnreadServer s ''/api/public/v1/letters'' =
     Some \<lparr> ok = True, jsonBody = Some (JArr []) \<rparr>"
  "fetchWithApiKey textUnreadServer s ''/api/public/v1/packages'' =
     Some \<lparr> ok = True, jsonBody = Some (JArr []) \<rparr>"
  by (simp_all add: fetchWithApiKey_def exampleServer_def textUnreadServer_def)

lemma loadAllMailTry_after_normalizing:
  assumes "fetchWithApiKey fetch s ''/api/public/v1/mail'' = Some \<lparr> ok = True, jsonBody = Some md \<rparr>"
    and "fetchWithApiKey fetch s ''/api/public/v1/letters'' = Some \<lparr> ok = True, jsonBody = Some ld \<rparr>"
    and "fetchWithApiKey fetch s ''/api/public/v1/packages'' = Some \<lparr> ok = True, jsonBody = Some pd \<rparr>"
    and "normalizeMailData a md = (Inr m, a1)"
    and "normalizeLettersData a1 ld = (Inr l, a2)"
    and "normalizePackagesData a2 pd = (Inr p, a3)"
    and "displayMail br (updateStats (s\<lparr>mail := m, letters := l, packages := p,
                                        allMailItems := m @ l @ p\<rparr>)) = (s4, None)"
  shows "loadAllMailTry br fetch a s = ((showNotification ''Mail loaded successfully!'' s4, None), a3)"
  by (simp add: loadAllMailTry_def assms Let_def)

section \<open>The example loads\<close>

lemma example_load:
  assumes f1: "\<And>s. fetchWithApiKey fetch s ''/api/public/v1/mail'' =
                  Some \<lparr> ok = True, jsonBody = Some md \<rparr>"
    and f2: "\<And>s. fetchWithApiKey fetch s ''/api/public/v1/letters'' =
                  Some \<lparr> ok = True, jsonBody = Some (JArr []) \<rparr>"
    and f3: "\<And>s. fetchWithApiKey fetch s ''/api/public/v1/packages'' =
                  Some \<lparr> ok = True, jsonBody = Some (JArr []) \<rparr>"
    and n: "\<And>a. normalizeMailData a md = (Inr ms, a)"
    and srt: "arraySort exampleBrowser (compareDates exampleBrowser) ms = (xs, None)"
    and ne: "xs \<noteq> []"
  shows "currentFilter (fst (loadAllMail exampleBrowser fetch exampleAmbient keyedApp)) = ''all''"
    and "apiKey (fst (loadAllMail exampleBrowser fetch exampleAmbient keyedApp)) = ''key''"
    and "searchBox (fst (loadAllMail exampleBrowser fetch exampleAmbient keyedApp)) = []"
    and "mail (fst (loadAllMail exampleBrowser fetch exampleAmbient keyedApp)) = ms"
    and "letters (fst (loadAllMail exampleBrowser fetch exampleAmbient keyedApp)) = []"
    and "packages (fst (loadAllMail exampleBrowser fetch exampleAmbient keyedApp)) = []"
    and "allMailItems (fst (loadAllMail exampleBrowser fetch exampleAmbient keyedApp)) = xs"
    and "mailList (fst (loadAllMail exampleBrowser fetch exampleAmbient keyedApp)) =
           Rows (map (itemRow exampleRenderer) xs)"
    and "statsCards (fst (loadAllMail exampleBrowser fetch exampleAmbient keyedApp)) =
           Some \<lparr> totalMail = length ms, totalLetters = 0, totalPackages = 0,
                  totalAll = length ms, countAll = length ms, countMail = length ms,
                  countLetters = 0, countPackages = 0,
                  countUnread = length (filter (\<lambda>i. truthy (unread i)) ms) \<rparr>"
proof -
  define s3 where "s3 = updateStats ((showLoading keyedApp)\<lparr>mail := ms, letters := [],
                          packages := [], allMailItems := ms\<rparr>)"
  have cf: "currentFilter s3 = ''all''"
    by (simp add: s3_def updateStats_def Let_def showLoading_def keyedApp_def newMailApp_def)
  have base: "baseSequence (currentFilter s3) s3 = ms"
    by (simp add: cf baseSequence_def) (simp add: s3_def updateStats_def Let_def)
  have sel: "selectArray s3 = AllMailItemsArr"
    by (simp add: selectArray_def cf)
  have r: "arraySort exampleBrowser (compareDates exampleBrowser)
             (baseSequence (currentFilter s3) s3) = (xs, None)"
    by (simp add: base srt)
  have d: "displayMail exampleBrowser s3 =
             ((assign AllMailItemsArr xs s3)\<lparr>mailList := Rows (map (itemRow exampleRenderer) xs)\<rparr>,
              None)"
    by (simp add: displayMail_result[OF r] sel ne render_example)
  have t: "loadAllMailTry exampleBrowser fetch exampleAmbient (showLoading keyedApp) =
      ((showNotification ''Mail loaded successfully!''
          ((assign AllMailItemsArr xs s3)\<lparr>mailList := Rows (map (itemRow exampleRenderer) xs)\<rparr>),
        None), exampleAmbient)"
    by (rule loadAllMailTry_after_normalizing[OF f1 f2 f3 n normalize_empty_array(2)
          normalize_empty_array(3)]) (simp add: d[unfolded s3_def] s3_def)
  have k: "apiKey keyedApp \<noteq> []" by (simp add: keyedApp_def newMailApp_def)
  have l: "fst (loadAllMail exampleBrowser fetch exampleAmbient keyedApp) =
      showNotification ''Mail loaded successfully!''
          ((assign AllMailItemsArr xs s3)\<lparr>mailList := Rows (map (itemRow exampleRenderer) xs)\<rparr>)"
    by (simp add: loadAllMail_def Let_def k t)
  show "currentFilter (fst (loadAllMail exampleBrowser fetch exampleAmbient keyedApp)) = ''all''"
    unfolding l by (simp add: showNotification_def assign_def cf)
  show "apiKey (fst (loadAllMail exampleBrowser fetch exampleAmbient keyedApp)) = ''key''"
    unfolding l by (simp add: showNotification_def assign_def s3_def updateStats_def Let_def
        showLoading_def keyedApp_def newMailApp_def)
  show "searchBox (fst (loadAllMail exampleBrowser fetch exampleAmbient keyedApp)) = []"
    unfolding l by (simp add: showNotification_def assign_def s3_def updateStats_def Let_def
        showLoading_def keyedApp_def newMailApp_def)
  show "mail (fst (loadAllMail exampleBrowser fetch exampleAmbient keyedApp)) = ms"
    unfolding l by (simp add: showNotification_def assign_def s3_def updateStats_def Let_def)
  show "letters (fst (loadAllMail exampleBrowser fetch exampleAmbient keyedApp)) = []"
    unfolding l by (simp add: showNotification_def assign_def s3_def updateStats_def Let_def)
  show "packages (fst (loadAllMail exampleBrowser fetch exampleAmbient keyedApp)) = []"
    unfolding l by (simp add: showNotification_def assign_def s3_def updateStats_def Let_def)
  show "allMailItems (fst (loadAllMail exampleBrowser fetch exampleAmbient keyedApp)) = xs"
    unfolding l by (simp add: showNotification_def assign_def)
  show "mailList (fst (loadAllMail exampleBrowser fetch exampleAmbient keyedApp)) =
           Rows (map (itemRow exampleRenderer) xs)"
    unfolding l by (simp add: showNotification_def)
  show "statsCards (fst (loadAllMail exampleBrowser fetch exampleAmbient keyedApp)) =
           Some \<lparr> totalMail = length ms, totalLetters = 0, totalPackages = 0,
                  totalAll = length ms, countAll = length ms, countMail = length ms,
                  countLetters = 0, countPackages = 0,
                  countUnread = length (filter (\<lambda>i. truthy (unread i)) ms) \<rparr>"
    unfolding l by (simp add: showNotification_def assign_def s3_def updateStats_def Let_def)
qed

lemma unread_example: "truthy (unread olderItem)" "truthy (unread newerItem)"
  "truthy (unread textUnreadItem)"
  by (simp_all add: olderItem_def newerItem_def textUnreadItem_def)

lemma unread_values: "unread olderItem = JBool True" "unread newerItem = JBool True"
  "unread textUnreadItem = JStr ''no''"
  by (simp_all add: olderItem_def newerItem_def textUnreadItem_def)

lemma older_neq_newer: "olderItem \<noteq> newerItem" "newerItem \<noteq> olderItem"
  by (simp_all add: olderItem_def newerItem_def)

lemma loadedApp_fields:
  "currentFilter loadedApp = ''all''"
  "apiKey loadedApp = ''key''"
  "searchBox loadedApp = []"
  "mail loadedApp = [olderItem, newerItem]"
  "letters loadedApp = []"
  "packages loadedApp = []"
  "allMailItems loadedApp = [newerItem, olderItem]"
  "mailList loadedApp = Rows [itemRow exampleRenderer newerItem, itemRow exampleRenderer olderItem]"
  "statsCards loadedApp =
     Some \<lparr> totalMail = 2, totalLetters = 0, totalPackages = 0, totalAll = 2, countAll = 2,
            countMail = 2, countLetters = 0, countPackages = 0, countUnread = 2 \<rparr>"
  unfolding loadedApp_def
  using example_load[OF fetch_example(1) fetch_example(2) fetch_example(3)
      normalizeMailData_example sort_example(1)]
  by (simp_all add: unread_example)

lemma textUnreadApp_fields:
  "mail textUnreadApp = [textUnreadItem]"
  "letters textUnreadApp = []"
  "packages textUnreadApp = []"
  "allMailItems textUnreadApp = [textUnreadItem]"
  "mailList textUnreadApp = Rows [itemRow exampleRenderer textUnreadItem]"
  "statsCards textUnreadApp =
     Some \<lparr> totalMail = 1, totalLetters = 0, totalPackages = 0, totalAll = 1, countAll = 1,
            countMail = 1, countLetters = 0, countPackages = 0, countUnread = 1 \<rparr>"
  unfolding textUnreadApp_def
  using example_load[OF fetch_example(4) fetch_example(5) fetch_example(6)
      normalizeMailData_textUnread sort_example(3)]
  by (simp_all add: unread_example)

section \<open>Loading\<close>

lemma loadAllMailTry_source_fails:
  assumes "sourceFails (fetch ''/api/public/v1/mail'' (apiKey s))
         \<or> sourceFails (fetch ''/api/public/v1/letters'' (apiKey s))
         \<or> sourceFails (fetch ''/api/public/v1/packages'' (apiKey s))"
  shows "\<exists>e. loadAllMailTry br fetch a s = ((s, Some e), a)"
  using assms
  by (auto simp add: loadAllMailTry_def fetchWithApiKey_def sourceFails_def
      split: option.splits)

lemma showError_store:
  "mail (showError m s) = mail s" "letters (showError m s) = letters s"
  "packages (showError m s) = packages s" "allMailItems (showError m s) = allMailItems s"
  "mailList (showError m s) = ErrorState m"
  by (simp_all add: showError_def)

lemma showLoading_store:
  "mail (showLoading s) = mail s" "letters (showLoading s) = letters s"
  "packages (showLoading s) = packages s" "allMailItems (showLoading s) = allMailItems s"
  "apiKey (showLoading s) = apiKey s"
  by (simp_all add: showLoading_def)

text \<open>
  Claim C3. \<^verbatim>\<open>loadAllMail\<close> is all-or-nothing: for every prior state, if one of the three
  source fetches fails (no answer, a non-success status, or a body that is not valid
  JSON), the three category sequences and the union are exactly as before and one error
  is shown in the list.
\<close>

theorem loadAllMail_all_or_nothing:
  "sourceFails (fetch ''/api/public/v1/mail'' (apiKey s))
      \<or> sourceFails (fetch ''/api/public/v1/letters'' (apiKey s))
      \<or> sourceFails (fetch ''/api/public/v1/packages'' (apiKey s))
    \<longrightarrow> mail (fst (loadAllMail br fetch a s)) = mail s
      \<and> letters (fst (loadAllMail br fetch a s)) = letters s
      \<and> packages (fst (loadAllMail br fetch a s)) = packages s
      \<and> allMailItems (fst (loadAllMail br fetch a s)) = allMailItems s
      \<and> mailList (fst (loadAllMail br fetch a s)) =
          ErrorState (if apiKey s = [] then ''Please enter and save your API key first''
                      else ''Failed to load mail. Please check your API key and try again.'')"
proof (intro conjI impI)
  assume f: "sourceFails (fetch ''/api/public/v1/mail'' (apiKey s))
      \<or> sourceFails (fetch ''/api/public/v1/letters'' (apiKey s))
      \<or> sourceFails (fetch ''/api/public/v1/packages'' (apiKey s))"
  then obtain e where
    t: "loadAllMailTry br fetch a (showLoading s) = ((showLoading s, Some e), a)"
    using loadAllMailTry_source_fails[of fetch "showLoading s" br a]
    by (auto simp add: showLoading_store)
  have r: "fst (loadAllMail br fetch a s) =
      (if apiKey s = [] then showError ''Please enter and save your API key first'' s
       else showError ''Failed to load mail. Please check your API key and try again.''
              (showLoading s))"
    using t by (simp add: loadAllMail_def Let_def)
  show "mail (fst (loadAllMail br fetch a s)) = mail s"
    by (simp add: r showError_store showLoading_store)
  show "letters (fst (loadAllMail br fetch a s)) = letters s"
    by (simp add: r showError_store showLoading_store)
  show "packages (fst (loadAllMail br fetch a s)) = packages s"
    by (simp add: r showError_store showLoading_store)
  show "allMailItems (fst (loadAllMail br fetch a s)) = allMailItems s"
    by (simp add: r showError_store showLoading_store)
  show "mailList (fst (loadAllMail br fetch a s)) =
          ErrorState (if apiKey s = [] then ''Please enter and save your API key first''
                      else ''Failed to load mail. Please check your API key and try again.'')"
    by (simp add: r showError_store)
qed

text \<open>
  The loaded application, reloaded from the server whose letters endpoint answers with a
  non-success status: the two mails of the first load stay, as stored.
\<close>

theorem loadAllMail_all_or_nothing_witness:
  "sourceFails (failingServer ''/api/public/v1/letters'' (apiKey loadedApp))
   \<and> mail (fst (loadAllMail exampleBrowser failingServer exampleAmbient loadedApp))
       = [olderItem, newerItem]
   \<and> letters (fst (loadAllMail exampleBrowser failingServer exampleAmbient loadedApp)) = []
   \<and> packages (fst (loadAllMail exampleBrowser failingServer exampleAmbient loadedApp)) = []
   \<and> allMailItems (fst (loadAllMail exampleBrowser failingServer exampleAmbient loadedApp))
       = [newerItem, olderItem]
   \<and> mailList (fst (loadAllMail exampleBrowser failingServer exampleAmbient loadedApp))
       = ErrorState ''Failed to load mail. Please check your API key and try again.''"
proof -
  have f: "sourceFails (failingServer ''/api/public/v1/letters'' (apiKey loadedApp))"
    by (simp add: sourceFails_def failingServer_def)
  show ?thesis
    using f loadAllMail_all_or_nothing
      [of failingServer loadedApp exampleBrowser exampleAmbient]
    by (simp add: loadedApp_fields)
qed

section \<open>Statistics after a load\<close>

lemma normalizedItem_unread_defined:
  "normalizeMailItem a x = (Inr y, a1) \<Longrightarrow> unread y \<noteq> JUndefined"
  "normalizeLetterItem a x = (Inr y, a1) \<Longrightarrow> unread y \<noteq> JUndefined"
  "normalizePackageItem a x = (Inr y, a1) \<Longrightarrow> unread y \<noteq> JUndefined"
  by (auto simp add: normalizeMailItem_def normalizeLetterItem_def normalizePackageItem_def
      unreadOrTrue_def split: if_splits prod.splits)

lemma normalized_unread_defined:
  "normalizeMailData a data = (Inr items, a') \<Longrightarrow> \<forall>i \<in> set items. unread i \<noteq> JUndefined"
  "normalizeLettersData a data = (Inr items, a') \<Longrightarrow> \<forall>i \<in> set items. unread i \<noteq> JUndefined"
  "normalizePackagesData a data = (Inr items, a') \<Longrightarrow> \<forall>i \<in> set items. unread i \<noteq> JUndefined"
proof -
  assume "normalizeMailData a data = (Inr items, a')"
  then consider "items = []"
    | "mapItems normalizeMailItem a (elements (unwrapItems ''mail'' data)) = (Inr items, a')"
    by (auto simp add: normalizeMailData_def Let_def split: if_splits)
  then show "\<forall>i \<in> set items. unread i \<noteq> JUndefined"
  proof cases
    case 1
    then show ?thesis by simp
  next
    case 2
    then show ?thesis
      by (rule mapItems_all[rotated]) (rule normalizedItem_unread_defined)
  qed
next
  assume "normalizeLettersData a data = (Inr items, a')"
  then consider "items = []"
    | "mapItems normalizeLetterItem a (elements (unwrapItems ''letters'' data)) = (Inr items, a')"
    by (auto simp add: normalizeLettersData_def Let_def split: if_splits)
  then show "\<forall>i \<in> set items. unread i \<noteq> JUndefined"
  proof cases
    case 1
    then show ?thesis by simp
  next
    case 2
    then show ?thesis
      by (rule mapItems_all[rotated]) (rule normalizedItem_unread_defined)
  qed
next
  assume "normalizePackagesData a data = (Inr items, a')"
  then consider "items = []"
    | "mapItems normalizePackageItem a (elements (unwrapItems ''packages'' data)) = (Inr items, a')"
    by (auto simp add: normalizePackagesData_def Let_def split: if_splits)
  then show "\<forall>i \<in> set items. unread i \<noteq> JUndefined"
  proof cases
    case 1
    then show ?thesis by simp
  next
    case 2
    then show ?thesis
      by (rule mapItems_all[rotated]) (rule normalizedItem_unread_defined)
  qed
qed

lemma loadAllMailTry_returns_shape:
  assumes "loadAllMailTry br fetch a s = ((s', None), a')"
  shows "\<exists>m l p. (\<forall>i \<in> set (m @ l @ p). unread i \<noteq> JUndefined)
           \<and> snd (displayMail br (updateStats (s\<lparr>mail := m, letters := l, packages := p,
                                                  allMailItems := m @ l @ p\<rparr>))) = None
           \<and> s' = showNotification ''Mail loaded successfully!''
                    (fst (displayMail br (updateStats (s\<lparr>mail := m, letters := l, packages := p,
                                                          allMailItems := m @ l @ p\<rparr>))))"
proof -
  from assms obtain md ld pd m l p a1 a2 a3 where
    n: "normalizeMailData a md = (Inr m, a1)" "normalizeLettersData a1 ld = (Inr l, a2)"
       "normalizePackagesData a2 pd = (Inr p, a3)"
    and d: "(case displayMail br (updateStats (s\<lparr>mail := m, letters := l, packages := p,
                                                allMailItems := m @ l @ p\<rparr>)) of
              (s4, thrown) \<Rightarrow>
                (case thrown of
                   Some e \<Rightarrow> ((s4, Some e), a3)
                 | None \<Rightarrow> ((showNotification ''Mail loaded successfully!'' s4, None), a3)))
            = ((s', None), a')"
    by (auto simp add: loadAllMailTry_def Let_def
        split: option.splits prod.splits sum.splits if_splits)
  obtain s4 thrown where dm: "displayMail br (updateStats (s\<lparr>mail := m, letters := l,
      packages := p, allMailItems := m @ l @ p\<rparr>)) = (s4, thrown)"
    by (cases "displayMail br (updateStats (s\<lparr>mail := m, letters := l,
      packages := p, allMailItems := m @ l @ p\<rparr>))") auto
  from d dm have "thrown = None" and "s' = showNotification ''Mail loaded successfully!'' s4"
    by (auto split: option.splits)
  moreover have "\<forall>i \<in> set (m @ l @ p). unread i \<noteq> JUndefined"
    using normalized_unread_defined(1)[OF n(1)] normalized_unread_defined(2)[OF n(2)]
      normalized_unread_defined(3)[OF n(3)] by auto
  ultimately show ?thesis using dm by (intro exI[of _ m] exI[of _ l] exI[of _ p]) simp
qed

lemma loadAllMail_success:
  assumes "\<forall>msg. mailList (fst (loadAllMail br fetch a s)) \<noteq> ErrorState msg"
  shows "\<exists>s' a'. loadAllMailTry br fetch a (showLoading s) = ((s', None), a')
           \<and> fst (loadAllMail br fetch a s) = s'"
proof (cases "apiKey s = []")
  case True
  then have "mailList (fst (loadAllMail br fetch a s)) =
    ErrorState ''Please enter and save your API key first''"
    by (simp add: loadAllMail_def showError_def)
  with assms show ?thesis by blast
next
  case False
  obtain s' thrown a' where t: "loadAllMailTry br fetch a (showLoading s) = ((s', thrown), a')"
    by (cases "loadAllMailTry br fetch a (showLoading s)") auto
  show ?thesis
  proof (cases thrown)
    case (Some err)
    with t False have "mailList (fst (loadAllMail br fetch a s)) =
      ErrorState ''Failed to load mail. Please check your API key and try again.''"
      by (simp add: loadAllMail_def Let_def showError_def)
    with assms show ?thesis by blast
  next
    case None
    with t False show ?thesis by (simp add: loadAllMail_def Let_def)
  qed
qed

lemma displayMail_returns_sort_returns:
  assumes "snd (displayMail br s) = None"
  shows "snd (arraySort br (compareDates br) (baseSequence (currentFilter s) s)) = None"
proof -
  obtain xs t where r: "arraySort br (compareDates br) (baseSequence (currentFilter s) s) = (xs, t)"
    by (cases "arraySort br (compareDates br) (baseSequence (currentFilter s) s)") auto
  from assms show ?thesis
    by (cases t) (simp_all add: displayMail_thrown[OF r] r)
qed

lemma displayMail_keeps_items:
  assumes "engineSort (arraySort br)"
    and "snd (arraySort br (compareDates br) (baseSequence (currentFilter s) s)) = None"
  shows "mset (mail (fst (displayMail br s))) = mset (mail s)"
    and "mset (letters (fst (displayMail br s))) = mset (letters s)"
    and "mset (packages (fst (displayMail br s))) = mset (packages s)"
    and "mset (allMailItems (fst (displayMail br s))) = mset (allMailItems s)"
  using assms(2) engineSort_mset[OF assms(1)]
  by (auto simp add: displayMail_mail displayMail_letters displayMail_packages
      displayMail_allMailItems baseSequence_def split: if_splits)

lemma updateStats_fields:
  "mail (updateStats s) = mail s" "letters (updateStats s) = letters s"
  "packages (updateStats s) = packages s" "allMailItems (updateStats s) = allMailItems s"
  "currentFilter (updateStats s) = currentFilter s"
  "statsCards (updateStats s) =
     Some \<lparr> totalMail = length (mail s), totalLetters = length (letters s),
            totalPackages = length (packages s),
            totalAll = length (mail s) + length (letters s) + length (packages s),
            countAll = length (mail s) + length (letters s) + length (packages s),
            countMail = length (mail s), countLetters = length (letters s),
            countPackages = length (packages s),
            countUnread = length (filter (\<lambda>i. truthy (unread i)) (allMailItems s)) \<rparr>"
  by (simp_all add: updateStats_def Let_def)

lemma showNotification_fields:
  "mail (showNotification m s) = mail s" "letters (showNotification m s) = letters s"
  "packages (showNotification m s) = packages s"
  "allMailItems (showNotification m s) = allMailItems s"
  "statsCards (showNotification m s) = statsCards s"
  "mailList (showNotification m s) = mailList s"
  "currentFilter (showNotification m s) = currentFilter s"
  by (simp_all add: showNotification_def)

lemma displayMail_keeps_counts:
  assumes "engineSort (arraySort br)"
    and "snd (arraySort br (compareDates br) (baseSequence (currentFilter s) s)) = None"
  shows "length (mail (fst (displayMail br s))) = length (mail s)"
    and "length (letters (fst (displayMail br s))) = length (letters s)"
    and "length (packages (fst (displayMail br s))) = length (packages s)"
    and "length (filter P (allMailItems (fst (displayMail br s))))
           = length (filter P (allMailItems s))"
    and "set (allMailItems (fst (displayMail br s))) = set (allMailItems s)"
proof -
  note m = displayMail_keeps_items[OF assms]
  show "length (mail (fst (displayMail br s))) = length (mail s)"
    using m(1) by (metis size_mset)
  show "length (letters (fst (displayMail br s))) = length (letters s)"
    using m(2) by (metis size_mset)
  show "length (packages (fst (displayMail br s))) = length (packages s)"
    using m(3) by (metis size_mset)
  have "mset (filter P (allMailItems (fst (displayMail br s))))
      = mset (filter P (allMailItems s))"
    using m(4) by simp
  then show "length (filter P (allMailItems (fst (displayMail br s))))
           = length (filter P (allMailItems s))"
    by (metis size_mset)
  show "set (allMailItems (fst (displayMail br s))) = set (allMailItems s)"
    using m(4) by (metis set_mset_mset)
qed

lemma truthy_defined:
  "v \<noteq> JUndefined \<Longrightarrow>
     truthy v = (v \<noteq> JBool False \<and> v \<noteq> JNull \<and> v \<noteq> JNum 0 \<and> v \<noteq> JStr [])"
  by (cases v) simp_all

lemma filter_unread_defined:
  assumes "\<forall>i \<in> set xs. unread i \<noteq> JUndefined"
  shows "filter (\<lambda>i. truthy (unread i)) xs =
         filter (\<lambda>i. unread i \<noteq> JBool False \<and> unread i \<noteq> JNull \<and> unread i \<noteq> JNum 0
                      \<and> unread i \<noteq> JStr []) xs"
  using assms by (intro filter_cong) (simp_all add: truthy_defined)

lemma filter_unread_boolean:
  assumes "\<forall>i \<in> set xs. \<exists>b. unread i = JBool b"
  shows "filter (\<lambda>i. truthy (unread i)) xs = filter (\<lambda>i. unread i = JBool True) xs"
  using assms by (intro filter_cong) auto

text \<open>
  Claim C4, amended. After every load that succeeds (the list shows no error), the total
  is the sum of the lengths of the three category sequences; the unread count is the
  number of items of the union whose \<open>unread\<close> field is truthy, that is, is none of
  \<^verbatim>\<open>false\<close>, \<^verbatim>\<open>null\<close>, \<open>0\<close> and the empty string; when every \<open>unread\<close> field of the union is
  a boolean, it is the number of items whose \<open>unread\<close> field is \<^verbatim>\<open>true\<close>.
\<close>

theorem loadAllMail_stats:
  assumes "engineSort (arraySort br)"
    and "\<forall>msg. mailList (fst (loadAllMail br fetch a s)) \<noteq> ErrorState msg"
  shows "\<exists>st. statsCards (fst (loadAllMail br fetch a s)) = Some st
     \<and> totalAll st = length (mail (fst (loadAllMail br fetch a s)))
                     + length (letters (fst (loadAllMail br fetch a s)))
                     + length (packages (fst (loadAllMail br fetch a s)))
     \<and> countUnread st =
         length (filter (\<lambda>i. unread i \<noteq> JBool False \<and> unread i \<noteq> JNull \<and> unread i \<noteq> JNum 0
                              \<and> unread i \<noteq> JStr [])
                   (allMailItems (fst (loadAllMail br fetch a s))))
     \<and> ((\<forall>i \<in> set (allMailItems (fst (loadAllMail br fetch a s))). \<exists>b. unread i = JBool b)
          \<longrightarrow> countUnread st =
                length (filter (\<lambda>i. unread i = JBool True)
                          (allMailItems (fst (loadAllMail br fetch a s)))))"
proof -
  from loadAllMail_success[OF assms(2)] obtain s' a' where
    t: "loadAllMailTry br fetch a (showLoading s) = ((s', None), a')"
    and r: "fst (loadAllMail br fetch a s) = s'"
    by blast
  from loadAllMailTry_returns_shape[OF t] obtain m l p where
    u: "\<forall>i \<in> set (m @ l @ p). unread i \<noteq> JUndefined"
    and d: "snd (displayMail br (updateStats ((showLoading s)\<lparr>mail := m, letters := l,
              packages := p, allMailItems := m @ l @ p\<rparr>))) = None"
    and s': "s' = showNotification ''Mail loaded successfully!''
              (fst (displayMail br (updateStats ((showLoading s)\<lparr>mail := m, letters := l,
                 packages := p, allMailItems := m @ l @ p\<rparr>))))"
    by blast
  define s3 where "s3 = updateStats ((showLoading s)\<lparr>mail := m, letters := l,
              packages := p, allMailItems := m @ l @ p\<rparr>)"
  have f: "mail s3 = m" "letters s3 = l" "packages s3 = p" "allMailItems s3 = m @ l @ p"
    by (simp_all add: s3_def updateStats_fields)
  have st: "statsCards s3 =
     Some \<lparr> totalMail = length m, totalLetters = length l, totalPackages = length p,
            totalAll = length m + length l + length p,
            countAll = length m + length l + length p,
            countMail = length m, countLetters = length l, countPackages = length p,
            countUnread = length (filter (\<lambda>i. truthy (unread i)) (m @ l @ p)) \<rparr>"
    by (simp add: s3_def updateStats_fields)
  have sr: "snd (arraySort br (compareDates br) (baseSequence (currentFilter s3) s3)) = None"
    using d by (intro displayMail_returns_sort_returns) (simp add: s3_def)
  note k = displayMail_keeps_counts[OF assms(1) sr]
  have e: "s' = showNotification ''Mail loaded successfully!'' (fst (displayMail br s3))"
    using s' by (simp add: s3_def)
  have c1: "statsCards s' = statsCards s3"
    by (simp add: e showNotification_fields displayMail_others)
  have c2: "length (mail s') = length m" "length (letters s') = length l"
    "length (packages s') = length p"
    by (simp_all add: e showNotification_fields k f)
  have c3: "length (filter P (allMailItems s')) = length (filter P (m @ l @ p))" for P
    using k(4)[of P] by (simp add: e showNotification_fields f)
  have c4: "set (allMailItems s') = set (m @ l @ p)"
    using k(5) by (simp add: e showNotification_fields f)
  have u': "\<forall>i \<in> set (allMailItems s'). unread i \<noteq> JUndefined"
    using u c4 by simp
  have g1: "length (filter (\<lambda>i. truthy (unread i)) (m @ l @ p)) =
      length (filter (\<lambda>i. unread i \<noteq> JBool False \<and> unread i \<noteq> JNull \<and> unread i \<noteq> JNum 0
                              \<and> unread i \<noteq> JStr []) (allMailItems s'))"
    using c3[of "\<lambda>i. truthy (unread i)"] filter_unread_defined[OF u'] by simp
  have g2: "length (filter (\<lambda>i. truthy (unread i)) (m @ l @ p)) =
      length (filter (\<lambda>i. unread i = JBool True) (allMailItems s'))"
    if "\<forall>i \<in> set (allMailItems s'). \<exists>b. unread i = JBool b"
    using c3[of "\<lambda>i. truthy (unread i)"] filter_unread_boolean[OF that] by simp
  show ?thesis
    unfolding r c1 st c2
    using g1 g2 by simp
qed

text \<open>The load from the example server: two unread mails, no letters, no packages.\<close>

theorem loadAllMail_stats_witness:
  "engineSort (arraySort exampleBrowser)
   \<and> (\<forall>msg. mailList (fst (loadAllMail exampleBrowser exampleServer exampleAmbient keyedApp))
              \<noteq> ErrorState msg)
   \<and> (\<exists>b. unread newerItem = JBool b) \<and> (\<exists>b. unread olderItem = JBool b)
   \<and> allMailItems (fst (loadAllMail exampleBrowser exampleServer exampleAmbient keyedApp))
       = [newerItem, olderItem]
   \<and> (\<exists>st. statsCards (fst (loadAllMail exampleBrowser exampleServer exampleAmbient keyedApp))
              = Some st
        \<and> totalAll st = 2 \<and> countUnread st = 2)"
proof -
  have e: "engineSort (arraySort exampleBrowser)" by (rule engineSort_example)
  have n: "\<forall>msg. mailList (fst (loadAllMail exampleBrowser exampleServer exampleAmbient keyedApp))
              \<noteq> ErrorState msg"
    using loadedApp_fields(8) by (simp add: loadedApp_def)
  show ?thesis
    using e n loadAllMail_stats[OF e n] loadedApp_fields
    by (auto simp add: loadedApp_def unread_values)
qed

text \<open>
  Claim C4 as stated does not hold. The server answers with one mail whose \<open>unread\<close> field
  is the text \<^verbatim>\<open>"no"\<close>: the load succeeds, the unread count is 1, and no item of the union
  has an \<open>unread\<close> field that is \<^verbatim>\<open>true\<close>.
\<close>

theorem unread_count_counts_truthy_values:
  "mailList textUnreadApp = Rows [itemRow exampleRenderer textUnreadItem]
   \<and> allMailItems textUnreadApp = [textUnreadItem]
   \<and> unread textUnreadItem = JStr ''no''
   \<and> (\<exists>st. statsCards textUnreadApp = Some st \<and> countUnread st = 1)
   \<and> length (filter (\<lambda>i. unread i = JBool True) (allMailItems textUnreadApp)) = 0"
  by (simp add: textUnreadApp_fields textUnreadItem_def)

section \<open>Displaying and the store\<close>

lemma engineSort_returns:
  assumes "engineSort srt" and "\<forall>a \<in> set xs. \<forall>b \<in> set xs. \<exists>k. c a b = Inr k"
  shows "snd (srt c xs) = None"
  using assms by (simp add: engineSort_def)

lemma compareDates_returns:
  assumes "\<exists>d. dateValue br (date a) = Inr d" and "\<exists>d. dateValue br (date b) = Inr d"
  shows "\<exists>k. compareDates br a b = Inr k"
  using assms by (auto simp add: compareDates_def)

lemma engineSort_dates_return:
  assumes "engineSort (arraySort br)" and "\<forall>i \<in> set xs. \<exists>d. dateValue br (date i) = Inr d"
  shows "snd (arraySort br (compareDates br) xs) = None"
  using assms by (intro engineSort_returns) (simp_all add: compareDates_returns)

lemma displayMail_valid_dates:
  assumes "engineSort (arraySort br)"
    and "\<forall>i \<in> set (baseSequence (currentFilter s) s). validDate br i"
  shows "mail (fst (displayMail br s)) =
       (if currentFilter s = ''mail'' then sort_key (\<lambda>i. - timeOf br i) (mail s) else mail s)"
    and "letters (fst (displayMail br s)) =
       (if currentFilter s = ''letters'' then sort_key (\<lambda>i. - timeOf br i) (letters s)
        else letters s)"
    and "packages (fst (displayMail br s)) =
       (if currentFilter s = ''packages'' then sort_key (\<lambda>i. - timeOf br i) (packages s)
        else packages s)"
    and "allMailItems (fst (displayMail br s)) =
       (if currentFilter s \<in> {''mail'', ''letters'', ''packages'', ''unread''} then allMailItems s
        else sort_key (\<lambda>i. - timeOf br i) (allMailItems s))"
proof -
  note v = engineSort_valid_dates[OF assms(1)]
  show "mail (fst (displayMail br s)) =
       (if currentFilter s = ''mail'' then sort_key (\<lambda>i. - timeOf br i) (mail s) else mail s)"
    using assms(2) by (auto simp add: displayMail_mail baseSequence_def v)
  show "letters (fst (displayMail br s)) =
       (if currentFilter s = ''letters'' then sort_key (\<lambda>i. - timeOf br i) (letters s)
        else letters s)"
    using assms(2) by (auto simp add: displayMail_letters baseSequence_def v)
  show "packages (fst (displayMail br s)) =
       (if currentFilter s = ''packages'' then sort_key (\<lambda>i. - timeOf br i) (packages s)
        else packages s)"
    using assms(2) by (auto simp add: displayMail_packages baseSequence_def v)
  show "allMailItems (fst (displayMail br s)) =
       (if currentFilter s \<in> {''mail'', ''letters'', ''packages'', ''unread''} then allMailItems s
        else sort_key (\<lambda>i. - timeOf br i) (allMailItems s))"
    using assms(2) by (auto simp add: displayMail_allMailItems baseSequence_def v)
qed

text \<open>
  Claim C2, amended. Displaying leaves every stored sequence other than the one the filter
  selects exactly as it was; with the filter \<open>unread\<close> all four are. The selected sequence
  (the category sequence for \<open>mail\<close>, \<open>letters\<close>, \<open>packages\<close>, the union for \<open>all\<close>) is
  handed to \<^verbatim>\<open>Array.prototype.sort\<close> and holds what the sort leaves: the store is written.
  In a browser whose sort meets the language's contract: the sort returns when no date of
  the selected sequence makes the date constructor throw; when the sort returns, every
  stored sequence keeps its elements, each as often as before; and when every date of the
  selected sequence is valid, the selected sequence becomes its stable sort by date,
  newest first.
\<close>

theorem displayMail_sorts_selected_in_place:
  assumes "engineSort (arraySort br)"
  shows "mail (fst (displayMail br s)) =
       (if currentFilter s = ''mail'' then fst (arraySort br (compareDates br) (mail s))
        else mail s)
   \<and> letters (fst (displayMail br s)) =
       (if currentFilter s = ''letters'' then fst (arraySort br (compareDates br) (letters s))
        else letters s)
   \<and> packages (fst (displayMail br s)) =
       (if currentFilter s = ''packages'' then fst (arraySort br (compareDates br) (packages s))
        else packages s)
   \<and> allMailItems (fst (displayMail br s)) =
       (if currentFilter s \<in> {''mail'', ''letters'', ''packages'', ''unread''} then allMailItems s
        else fst (arraySort br (compareDates br) (allMailItems s)))
   \<and> ((\<forall>i \<in> set (baseSequence (currentFilter s) s). \<exists>d. dateValue br (date i) = Inr d)
        \<longrightarrow> snd (arraySort br (compareDates br) (baseSequence (currentFilter s) s)) = None)
   \<and> (snd (arraySort br (compareDates br) (baseSequence (currentFilter s) s)) = None
        \<longrightarrow> mset (mail (fst (displayMail br s))) = mset (mail s)
          \<and> mset (letters (fst (displayMail br s))) = mset (letters s)
          \<and> mset (packages (fst (displayMail br s))) = mset (packages s)
          \<and> mset (allMailItems (fst (displayMail br s))) = mset (allMailItems s))
   \<and> ((\<forall>i \<in> set (baseSequence (currentFilter s) s). validDate br i)
        \<longrightarrow> mail (fst (displayMail br s)) =
              (if currentFilter s = ''mail'' then sort_key (\<lambda>i. - timeOf br i) (mail s)
               else mail s)
          \<and> letters (fst (displayMail br s)) =
              (if currentFilter s = ''letters'' then sort_key (\<lambda>i. - timeOf br i) (letters s)
               else letters s)
          \<and> packages (fst (displayMail br s)) =
              (if currentFilter s = ''packages'' then sort_key (\<lambda>i. - timeOf br i) (packages s)
               else packages s)
          \<and> allMailItems (fst (displayMail br s)) =
              (if currentFilter s \<in> {''mail'', ''letters'', ''packages'', ''unread''}
               then allMailItems s
               else sort_key (\<lambda>i. - timeOf br i) (allMailItems s)))"
proof (intro conjI impI)
  show "mail (fst (displayMail br s)) =
       (if currentFilter s = ''mail'' then fst (arraySort br (compareDates br) (mail s))
        else mail s)"
    by (rule displayMail_mail)
  show "letters (fst (displayMail br s)) =
       (if currentFilter s = ''letters'' then fst (arraySort br (compareDates br) (letters s))
        else letters s)"
    by (rule displayMail_letters)
  show "packages (fst (displayMail br s)) =
       (if currentFilter s = ''packages'' then fst (arraySort br (compareDates br) (packages s))
        else packages s)"
    by (rule displayMail_packages)
  show "allMailItems (fst (displayMail br s)) =
       (if currentFilter s \<in> {''mail'', ''letters'', ''packages'', ''unread''} then allMailItems s
        else fst (arraySort br (compareDates br) (allMailItems s)))"
    by (rule displayMail_allMailItems)
next
  assume "\<forall>i \<in> set (baseSequence (currentFilter s) s). \<exists>d. dateValue br (date i) = Inr d"
  then show "snd (arraySort br (compareDates br) (baseSequence (currentFilter s) s)) = None"
    by (rule engineSort_dates_return[OF assms])
next
  assume r: "snd (arraySort br (compareDates br) (baseSequence (currentFilter s) s)) = None"
  show "mset (mail (fst (displayMail br s))) = mset (mail s)"
    by (rule displayMail_keeps_items(1)[OF assms r])
  show "mset (letters (fst (displayMail br s))) = mset (letters s)"
    by (rule displayMail_keeps_items(2)[OF assms r])
  show "mset (packages (fst (displayMail br s))) = mset (packages s)"
    by (rule displayMail_keeps_items(3)[OF assms r])
  show "mset (allMailItems (fst (displayMail br s))) = mset (allMailItems s)"
    by (rule displayMail_keeps_items(4)[OF assms r])
next
  assume v: "\<forall>i \<in> set (baseSequence (currentFilter s) s). validDate br i"
  show "mail (fst (displayMail br s)) =
              (if currentFilter s = ''mail'' then sort_key (\<lambda>i. - timeOf br i) (mail s)
               else mail s)"
    by (rule displayMail_valid_dates(1)[OF assms v])
  show "letters (fst (displayMail br s)) =
              (if currentFilter s = ''letters'' then sort_key (\<lambda>i. - timeOf br i) (letters s)
               else letters s)"
    by (rule displayMail_valid_dates(2)[OF assms v])
  show "packages (fst (displayMail br s)) =
              (if currentFilter s = ''packages'' then sort_key (\<lambda>i. - timeOf br i) (packages s)
               else packages s)"
    by (rule displayMail_valid_dates(3)[OF assms v])
  show "allMailItems (fst (displayMail br s)) =
              (if currentFilter s \<in> {''mail'', ''letters'', ''packages'', ''unread''}
               then allMailItems s
               else sort_key (\<lambda>i. - timeOf br i) (allMailItems s))"
    by (rule displayMail_valid_dates(4)[OF assms v])
qed

lemma dates_example:
  "dateValue exampleBrowser (date olderItem) = Inr (Some 1000)"
  "dateValue exampleBrowser (date newerItem) = Inr (Some 2000)"
  "validDate exampleBrowser olderItem" "validDate exampleBrowser newerItem"
  "timeOf exampleBrowser olderItem = 1000" "timeOf exampleBrowser newerItem = 2000"
  by (simp_all add: validDate_def timeOf_def exampleBrowser_def numericDate_def olderItem_def
      newerItem_def)

text \<open>
  The loaded application displayed with the filter \<open>mail\<close>: the stored mail sequence,
  older mail first, becomes newest first, and the union is untouched.
\<close>

theorem displayMail_sorts_selected_in_place_witness:
  "engineSort (arraySort exampleBrowser)
   \<and> currentFilter (loadedApp\<lparr>currentFilter := ''mail''\<rparr>) = ''mail''
   \<and> baseSequence ''mail'' (loadedApp\<lparr>currentFilter := ''mail''\<rparr>) = [olderItem, newerItem]
   \<and> dateValue exampleBrowser (date olderItem) = Inr (Some 1000)
   \<and> dateValue exampleBrowser (date newerItem) = Inr (Some 2000)
   \<and> validDate exampleBrowser olderItem \<and> validDate exampleBrowser newerItem
   \<and> snd (arraySort exampleBrowser (compareDates exampleBrowser) [olderItem, newerItem]) = None
   \<and> mail (fst (displayMail exampleBrowser (loadedApp\<lparr>currentFilter := ''mail''\<rparr>)))
       = [newerItem, olderItem]
   \<and> letters (fst (displayMail exampleBrowser (loadedApp\<lparr>currentFilter := ''mail''\<rparr>))) = []
   \<and> packages (fst (displayMail exampleBrowser (loadedApp\<lparr>currentFilter := ''mail''\<rparr>))) = []
   \<and> allMailItems (fst (displayMail exampleBrowser (loadedApp\<lparr>currentFilter := ''mail''\<rparr>)))
       = [newerItem, olderItem]
   \<and> mset (mail (fst (displayMail exampleBrowser (loadedApp\<lparr>currentFilter := ''mail''\<rparr>))))
       = mset [olderItem, newerItem]"
proof -
  have b: "baseSequence ''mail'' (loadedApp\<lparr>currentFilter := ''mail''\<rparr>) = [olderItem, newerItem]"
    by (simp add: baseSequence_def loadedApp_fields)
  show ?thesis
    using displayMail_sorts_selected_in_place
            [OF engineSort_example, of "loadedApp\<lparr>currentFilter := ''mail''\<rparr>"]
    by (simp add: b engineSort_example dates_example loadedApp_fields sort_example)
qed

text \<open>
  Claim C2 as stated does not hold: after the example load (which displays with the
  filter \<open>all\<close>) the union is not the concatenation of the three category sequences, and
  selecting the filter \<open>mail\<close> changes the stored mail sequence.
\<close>

theorem displayMail_reorders_store:
  "allMailItems loadedApp \<noteq> mail loadedApp @ letters loadedApp @ packages loadedApp
   \<and> mail (fst (filterMail exampleBrowser ''mail'' loadedApp)) \<noteq> mail loadedApp"
  by (simp add: loadedApp_fields filterMail_def displayMail_mail sort_example
      older_neq_newer)

section \<open>Filter and search\<close>

lemma baseSequence_searchMail: "baseSequence c (searchMail br q s) = baseSequence c s"
  by (simp add: baseSequence_def searchMail_def Let_def split: list_content.splits)

lemma baseSequence_update:
  "baseSequence c (s\<lparr>currentFilter := c', activeCategory := x\<rparr>) = baseSequence c s"
  "baseSequence c (s\<lparr>searchBox := v\<rparr>) = baseSequence c s"
  by (simp_all add: baseSequence_def)

lemma filterMail_mailList:
  assumes "arraySort br (compareDates br) (baseSequence c s) = (xs, None)"
    and "renderList br xs = Inr rows"
  shows "mailList (fst (filterMail br c s)) = (if xs = [] then EmptyState else Rows rows)"
proof -
  have "arraySort br (compareDates br)
      (baseSequence (currentFilter (s\<lparr>currentFilter := c, activeCategory := Some c\<rparr>))
         (s\<lparr>currentFilter := c, activeCategory := Some c\<rparr>)) = (xs, None)"
    using assms(1) by (simp add: baseSequence_update)
  from displayMail_mailList[OF this] show ?thesis
    by (simp add: filterMail_def assms(2))
qed

lemma visible_searched:
  "filter (\<lambda>r. display r \<noteq> ''none'') (map (searchRow br (lowerCase br q)) rows)
     = map (\<lambda>r. r\<lparr>display := []\<rparr>) (filter (rowMatches br q) rows)"
  by (induction rows) (simp_all add: searchRow_def rowMatches_def)

lemma searchRow_twice: "searchRow br ql \<circ> searchRow br ql' = searchRow br ql"
  by (rule ext) (simp add: searchRow_def)

lemma visibleRows_searchMail:
  "visibleRows (searchMail br q t) =
     (case mailList t of
        Rows rs \<Rightarrow> map (\<lambda>r. r\<lparr>display := []\<rparr>) (filter (rowMatches br q) rs)
      | _ \<Rightarrow> [])"
  by (simp add: visibleRows_def searchMail_def Let_def visible_searched split: list_content.splits)

lemma rowMatches_itemRow: "rowMatches br q (itemRow liText i) = matchesSearch br liText q i"
  by (simp add: rowMatches_def matchesSearch_def itemRow_def)

lemma itemRows_matching:
  "map (\<lambda>r. r\<lparr>display := []\<rparr>) (filter (rowMatches br q) (map (itemRow liText) xs))
     = map (itemRow liText) (filter (matchesSearch br liText q) xs)"
  by (induction xs) (simp_all add: rowMatches_itemRow, simp_all add: itemRow_def)

lemma itemRows_shown:
  "filter (\<lambda>r. display r \<noteq> ''none'') (map (itemRow liText) xs) = map (itemRow liText) xs"
  by (induction xs) (simp_all add: itemRow_def)

lemma visible_after_actions:
  assumes "arraySort br (compareDates br) (baseSequence c s) = (xs, None)"
    and "renderList br xs = Inr rows"
  shows "visibleRows (onSearchInput br q (onCategoryClick br c s)) =
           (if xs = [] then []
            else map (\<lambda>r. r\<lparr>display := []\<rparr>) (filter (rowMatches br q) rows))"
    and "visibleRows (onCategoryClick br c (onSearchInput br q s)) =
           (if xs = [] then [] else filter (\<lambda>r. display r \<noteq> ''none'') rows)"
    and "visibleRows (onSearchInput br q (onSearchInput br q' (onCategoryClick br c s))) =
           (if xs = [] then []
            else map (\<lambda>r. r\<lparr>display := []\<rparr>) (filter (rowMatches br q) rows))"
proof -
  let ?t = "fst (filterMail br c s)"
  have ml: "mailList ?t = (if xs = [] then EmptyState else Rows rows)"
    by (rule filterMail_mailList[OF assms])
  show "visibleRows (onSearchInput br q (onCategoryClick br c s)) =
           (if xs = [] then []
            else map (\<lambda>r. r\<lparr>display := []\<rparr>) (filter (rowMatches br q) rows))"
    using ml by (simp add: onSearchInput_def onCategoryClick_def visibleRows_searchMail)
  have "arraySort br (compareDates br) (baseSequence c (onSearchInput br q s)) = (xs, None)"
    using assms(1) by (simp add: onSearchInput_def baseSequence_searchMail baseSequence_update)
  from filterMail_mailList[OF this assms(2)]
  show "visibleRows (onCategoryClick br c (onSearchInput br q s)) =
           (if xs = [] then [] else filter (\<lambda>r. display r \<noteq> ''none'') rows)"
    by (simp add: onCategoryClick_def visibleRows_def)
  have "mailList ((onSearchInput br q' ?t)\<lparr>searchBox := q\<rparr>) =
          (if xs = [] then EmptyState else Rows (map (searchRow br (lowerCase br q')) rows))"
    using ml by (simp add: onSearchInput_def searchMail_def Let_def)
  then have "visibleRows (searchMail br q ((onSearchInput br q' ?t)\<lparr>searchBox := q\<rparr>)) =
           (if xs = [] then []
            else filter (\<lambda>r. display r \<noteq> ''none'')
                  (map (searchRow br (lowerCase br q)) rows))"
    by (simp add: visibleRows_def searchMail_def Let_def searchRow_twice)
  then show "visibleRows (onSearchInput br q (onSearchInput br q' (onCategoryClick br c s))) =
           (if xs = [] then []
            else map (\<lambda>r. r\<lparr>display := []\<rparr>) (filter (rowMatches br q) rows))"
    by (simp add: onSearchInput_def onCategoryClick_def visible_searched)
qed

lemma matches_example:
  "matchesSearch exampleBrowser exampleRenderer ''invoice'' olderItem"
  "\<not> matchesSearch exampleBrowser exampleRenderer ''invoice'' newerItem"
  by (simp_all add: matchesSearch_def exampleRenderer_def olderItem_def newerItem_def textOf_def
      exampleBrowser_def asciiLowerCase_def asciiLowerChar_def)

lemma baseSequence_all_loadedApp: "baseSequence ''all'' loadedApp = [newerItem, olderItem]"
  by (simp add: baseSequence_def loadedApp_fields)

text \<open>
  Claim C1, amended. The program keeps no search text: a search hides rows of the list as
  it is rendered, and every display renders the list anew. When the display of the
  filter's base sequence succeeds (the sort returns \<open>xs\<close> and the rendering of \<open>xs\<close> gives
  \<open>rows\<close>):
  \<^item> a search made after the filter was chosen shows exactly the rows whose text contains
    the search text, both in lower case;
  \<^item> choosing the filter after a search shows every row that is not rendered hidden,
    whatever text is in the search box;
  \<^item> a later search replaces an earlier one;
  \<^item> when the rendering gives one row per item, the rows shown after filter and search are
    those of the items of \<open>xs\<close> that match the search, and the rows shown after search and
    filter are those of all of \<open>xs\<close>;
  \<^item> in a browser whose sort meets the language's contract, \<open>xs\<close> has the elements of the
    filter's base sequence, each as often.
\<close>

theorem visible_after_search_and_filter:
  assumes "arraySort br (compareDates br) (baseSequence c s) = (xs, None)"
    and "renderList br xs = Inr rows"
  shows "visibleRows (onSearchInput br q (onCategoryClick br c s)) =
           (if xs = [] then []
            else map (\<lambda>r. r\<lparr>display := []\<rparr>) (filter (rowMatches br q) rows))
   \<and> visibleRows (onCategoryClick br c (onSearchInput br q s)) =
           (if xs = [] then [] else filter (\<lambda>r. display r \<noteq> ''none'') rows)
   \<and> visibleRows (onSearchInput br q (onSearchInput br q' (onCategoryClick br c s))) =
           (if xs = [] then []
            else map (\<lambda>r. r\<lparr>display := []\<rparr>) (filter (rowMatches br q) rows))
   \<and> (rows = map (itemRow liText) xs \<longrightarrow>
         visibleRows (onSearchInput br q (onCategoryClick br c s)) =
           map (itemRow liText) (filter (matchesSearch br liText q) xs)
       \<and> visibleRows (onCategoryClick br c (onSearchInput br q s)) = map (itemRow liText) xs)
   \<and> (engineSort (arraySort br) \<longrightarrow> mset xs = mset (baseSequence c s))"
proof (intro conjI impI)
  note v = visible_after_actions[OF assms]
  show "visibleRows (onSearchInput br q (onCategoryClick br c s)) =
           (if xs = [] then []
            else map (\<lambda>r. r\<lparr>display := []\<rparr>) (filter (rowMatches br q) rows))"
    by (rule v(1))
  show "visibleRows (onCategoryClick br c (onSearchInput br q s)) =
           (if xs = [] then [] else filter (\<lambda>r. display r \<noteq> ''none'') rows)"
    by (rule v(2))
  show "visibleRows (onSearchInput br q (onSearchInput br q' (onCategoryClick br c s))) =
           (if xs = [] then []
            else map (\<lambda>r. r\<lparr>display := []\<rparr>) (filter (rowMatches br q) rows))"
    by (rule v(3))
  show "visibleRows (onSearchInput br q (onCategoryClick br c s)) =
           map (itemRow liText) (filter (matchesSearch br liText q) xs)"
    if "rows = map (itemRow liText) xs"
    unfolding v(1) that by (simp add: itemRows_matching)
  show "visibleRows (onCategoryClick br c (onSearchInput br q s)) = map (itemRow liText) xs"
    if "rows = map (itemRow liText) xs"
    unfolding v(2) that by (simp add: itemRows_shown)
  show "mset xs = mset (baseSequence c s)" if "engineSort (arraySort br)"
    using engineSort_mset[OF that, of "compareDates br" "baseSequence c s"] assms(1) by simp
qed

text \<open>The two orders of the same two actions, and a search after another search.\<close>

theorem visible_after_search_and_filter_witness:
  "arraySort exampleBrowser (compareDates exampleBrowser) (baseSequence ''all'' loadedApp)
     = ([newerItem, olderItem], None)
   \<and> renderList exampleBrowser [newerItem, olderItem]
       = Inr (map (itemRow exampleRenderer) [newerItem, olderItem])
   \<and> engineSort (arraySort exampleBrowser)
   \<and> visibleRows (onSearchInput exampleBrowser ''invoice''
       (onCategoryClick exampleBrowser ''all'' loadedApp)) = [itemRow exampleRenderer olderItem]
   \<and> visibleRows (onCategoryClick exampleBrowser ''all''
       (onSearchInput exampleBrowser ''invoice'' loadedApp))
       = [itemRow exampleRenderer newerItem, itemRow exampleRenderer olderItem]
   \<and> visibleRows (onSearchInput exampleBrowser ''invoice'' (onSearchInput exampleBrowser ''hello''
       (onCategoryClick exampleBrowser ''all'' loadedApp))) = [itemRow exampleRenderer olderItem]
   \<and> mset [newerItem, olderItem] = mset (baseSequence ''all'' loadedApp)"
proof -
  have r: "arraySort exampleBrowser (compareDates exampleBrowser) (baseSequence ''all'' loadedApp)
     = ([newerItem, olderItem], None)"
    by (simp add: baseSequence_all_loadedApp sort_example)
  have h: "renderList exampleBrowser [newerItem, olderItem]
       = Inr (map (itemRow exampleRenderer) [newerItem, olderItem])"
    by (rule render_example)
  have m: "rowMatches exampleBrowser ''invoice'' (itemRow exampleRenderer olderItem)"
    "\<not> rowMatches exampleBrowser ''invoice'' (itemRow exampleRenderer newerItem)"
    by (simp_all add: rowMatches_itemRow matches_example)
  have d: "(itemRow exampleRenderer olderItem)\<lparr>display := []\<rparr> = itemRow exampleRenderer olderItem"
    "display (itemRow exampleRenderer olderItem) = []"
    "display (itemRow exampleRenderer newerItem) = []"
    by (simp_all add: itemRow_def)
  show ?thesis
    using r h engineSort_example
      visible_after_search_and_filter
        [OF r h, of "''invoice''" "''hello''" exampleRenderer]
    by (simp add: m d baseSequence_all_loadedApp)
qed

text \<open>
  Claim C1 as stated does not hold: on the loaded application, typing \<open>invoice\<close> after
  clicking \<open>all\<close>, and clicking \<open>all\<close> after typing \<open>invoice\<close>, end with the same store, the
  same filter and the same text in the search box, and with different visible rows.
\<close>

theorem visible_depends_on_order_of_actions:
  "visibleRows (onSearchInput exampleBrowser ''invoice''
       (onCategoryClick exampleBrowser ''all'' loadedApp))
     \<noteq> visibleRows (onCategoryClick exampleBrowser ''all''
         (onSearchInput exampleBrowser ''invoice'' loadedApp))
   \<and> searchBox (onSearchInput exampleBrowser ''invoice''
         (onCategoryClick exampleBrowser ''all'' loadedApp))
     = searchBox (onCategoryClick exampleBrowser ''all''
         (onSearchInput exampleBrowser ''invoice'' loadedApp))
   \<and> currentFilter (onSearchInput exampleBrowser ''invoice''
         (onCategoryClick exampleBrowser ''all'' loadedApp))
     = currentFilter (onCategoryClick exampleBrowser ''all''
         (onSearchInput exampleBrowser ''invoice'' loadedApp))
   \<and> mail (onSearchInput exampleBrowser ''invoice''
         (onCategoryClick exampleBrowser ''all'' loadedApp))
     = mail (onCategoryClick exampleBrowser ''all''
         (onSearchInput exampleBrowser ''invoice'' loadedApp))
   \<and> letters (onSearchInput exampleBrowser ''invoice''
         (onCategoryClick exampleBrowser ''all'' loadedApp))
     = letters (onCategoryClick exampleBrowser ''all''
         (onSearchInput exampleBrowser ''invoice'' loadedApp))
   \<and> packages (onSearchInput exampleBrowser ''invoice''
         (onCategoryClick exampleBrowser ''all'' loadedApp))
     = packages (onCategoryClick exampleBrowser ''all''
         (onSearchInput exampleBrowser ''invoice'' loadedApp))
   \<and> allMailItems (onSearchInput exampleBrowser ''invoice''
         (onCategoryClick exampleBrowser ''all'' loadedApp))
     = allMailItems (onCategoryClick exampleBrowser ''all''
         (onSearchInput exampleBrowser ''invoice'' loadedApp))"
proof -
  let ?A = "onSearchInput exampleBrowser ''invoice'' (onCategoryClick exampleBrowser ''all'' loadedApp)"
  let ?B = "onCategoryClick exampleBrowser ''all'' (onSearchInput exampleBrowser ''invoice'' loadedApp)"
  let ?D = "fst (displayMail exampleBrowser
        (loadedApp\<lparr>currentFilter := ''all'', activeCategory := Some ''all''\<rparr>))"
  let ?S = "(searchMail exampleBrowser ''invoice'' (loadedApp\<lparr>searchBox := ''invoice''\<rparr>))
         \<lparr>currentFilter := ''all'', activeCategory := Some ''all''\<rparr>"
  have r: "arraySort exampleBrowser (compareDates exampleBrowser) (baseSequence ''all'' loadedApp)
     = ([newerItem, olderItem], None)"
    by (simp add: baseSequence_all_loadedApp sort_example)
  have h: "renderList exampleBrowser [newerItem, olderItem]
       = Inr [itemRow exampleRenderer newerItem, itemRow exampleRenderer olderItem]"
    by (simp add: render_example)
  have m: "rowMatches exampleBrowser ''invoice'' (itemRow exampleRenderer olderItem)"
    "\<not> rowMatches exampleBrowser ''invoice'' (itemRow exampleRenderer newerItem)"
    by (simp_all add: rowMatches_itemRow matches_example)
  have d: "(itemRow exampleRenderer olderItem)\<lparr>display := []\<rparr> = itemRow exampleRenderer olderItem"
    "display (itemRow exampleRenderer olderItem) = []"
    "display (itemRow exampleRenderer newerItem) = []"
    by (simp_all add: itemRow_def)
  have vA: "visibleRows ?A = [itemRow exampleRenderer olderItem]"
    using visible_after_actions(1)[OF r h, of "''invoice''"] by (simp add: m d)
  have vB: "visibleRows ?B = [itemRow exampleRenderer newerItem, itemRow exampleRenderer olderItem]"
    using visible_after_actions(2)[OF r h, of "''invoice''"] by (simp add: d)
  have A: "?A = searchMail exampleBrowser ''invoice'' (?D\<lparr>searchBox := ''invoice''\<rparr>)"
    by (simp add: onSearchInput_def onCategoryClick_def filterMail_def)
  have B: "?B = fst (displayMail exampleBrowser ?S)"
    by (simp add: onSearchInput_def onCategoryClick_def filterMail_def)
  have searchMail_store: "searchBox (searchMail br q t) = searchBox t"
    "currentFilter (searchMail br q t) = currentFilter t"
    "mail (searchMail br q t) = mail t" "letters (searchMail br q t) = letters t"
    "packages (searchMail br q t) = packages t" "allMailItems (searchMail br q t) = allMailItems t"
    for br q t
    by (simp_all add: searchMail_def Let_def split: list_content.splits)
  have fieldsB: "searchBox ?B = ''invoice''" "currentFilter ?B = ''all''"
    "mail ?B = [olderItem, newerItem]" "letters ?B = []" "packages ?B = []"
    "allMailItems ?B = [newerItem, olderItem]"
    unfolding B
    by (simp_all add: displayMail_others displayMail_mail displayMail_letters
        displayMail_packages displayMail_allMailItems searchMail_store loadedApp_fields
        sort_example)
  have fieldsA: "searchBox ?A = ''invoice''" "currentFilter ?A = ''all''"
    "mail ?A = [olderItem, newerItem]" "letters ?A = []" "packages ?A = []"
    "allMailItems ?A = [newerItem, olderItem]"
    unfolding A
    by (simp_all add: searchMail_store displayMail_others displayMail_mail
        displayMail_letters displayMail_packages displayMail_allMailItems loadedApp_fields
        sort_example)
  show ?thesis
    unfolding vA vB fieldsA fieldsB by (simp add: itemRow_def)
qed

section \<open>Normalization and the ambient sources\<close>









end
